theory Spec2Isabelle
  imports Complex_Main "HOL-Library.Word"
begin

section \<open>Python values and their text\<close>

text \<open>
  The script \<^verbatim>\<open>Quick_Learn.py\<close> formats integers with \<^verbatim>\<open>str.format\<close> and
  floating-point numbers with \<^verbatim>\<open>"%.8f"\<close> (through \<^verbatim>\<open>numpy.savetxt\<close>) and with
  \<^verbatim>\<open>repr\<close> (a tuple handed to \<^verbatim>\<open>str.format\<close>). A finite binary floating-point
  number is kept exactly, as mantissa and binary exponent: \<open>Finite m e\<close> is the number
  \<open>m * 2 ^ e\<close> (\<open>Finite 0 e\<close> is the positive zero). The other values of a float are the
  negative zero, the two infinities and not-a-number.
\<close>

definition digit_char :: "nat \<Rightarrow> char" where
  "digit_char d = ''0123456789'' ! d"

fun show_nat :: "nat \<Rightarrow> string" where
  "show_nat n = (if n < 10 then [digit_char n] else show_nat (n div 10) @ [digit_char (n mod 10)])"

declare show_nat.simps [simp del]

definition show_int :: "int \<Rightarrow> string" where
  "show_int i = (if i < 0 then ''-'' @ show_nat (nat (- i)) else show_nat (nat i))"

datatype pyfloat = Finite int int | NegZero | PosInf | NegInf | NaN

definition value_of :: "int \<Rightarrow> int \<Rightarrow> rat" where
  "value_of m e = (if 0 \<le> e then of_int m * 2 ^ nat e else of_int m / 2 ^ nat (- e))"

text \<open>Division of naturals, rounded to the nearest, a tie to the even neighbour.\<close>

definition round_div :: "nat \<Rightarrow> nat \<Rightarrow> nat" where
  "round_div a b = (let q = a div b; r = a mod b in
      if 2 * r < b then q else if b < 2 * r then q + 1 else if even q then q else q + 1)"

definition zero_pad :: "nat \<Rightarrow> string \<Rightarrow> string" where
  "zero_pad w s = replicate (w - length s) CHR ''0'' @ s"

text \<open>
  \<^verbatim>\<open>"%.<p>f" % v\<close>: the exact value rounded to \<open>p\<close> decimals, the sign kept also
  where the digits are all zero; \<^verbatim>\<open>nan\<close>, \<^verbatim>\<open>inf\<close> and \<^verbatim>\<open>-inf\<close> for the values that
  are not numbers.
\<close>

definition format_f :: "nat \<Rightarrow> pyfloat \<Rightarrow> string" where
  "format_f p v = (case v of
      NaN \<Rightarrow> ''nan''
    | PosInf \<Rightarrow> ''inf''
    | NegInf \<Rightarrow> ''-inf''
    | NegZero \<Rightarrow> ''-0.'' @ replicate p CHR ''0''
    | Finite m e \<Rightarrow>
        (let n = round_div (nat \<bar>m\<bar> * 2 ^ nat e * 10 ^ p) (2 ^ nat (- e)) in
          (if m < 0 then ''-'' else []) @ show_nat (n div 10 ^ p) @ ''.'' @
          zero_pad p (show_nat (n mod 10 ^ p))))"

text \<open>
  \<^verbatim>\<open>repr\<close> of a Python float: the shortest decimal that reads back as the same
  double (the nearest one to the value where two of that length do), in fixed
  notation when the decimal point falls within 16 digits, in exponent notation
  otherwise. The mantissa is first brought to the 53 bits of a double; denormal
  numbers, which no depth in millimetres reaches, are not treated apart.
\<close>

fun num_digits :: "nat \<Rightarrow> nat \<Rightarrow> nat" where
  "num_digits b n = (if b < 2 \<or> n < b then 1 else Suc (num_digits b (n div b)))"

declare num_digits.simps [simp del]

definition canonical :: "nat \<Rightarrow> int \<Rightarrow> nat \<times> int" where
  "canonical m e = (let l = num_digits 2 m in
      if l \<le> 53 then (m * 2 ^ (53 - l), e - int (53 - l))
      else (m div 2 ^ (l - 53), e + int (l - 53)))"

text \<open>The sign of \<open>d * 10 ^ p - n * 2 ^ k\<close>, computed on integers.\<close>

definition dec_minus_bin :: "nat \<Rightarrow> int \<Rightarrow> nat \<Rightarrow> int \<Rightarrow> int" where
  "dec_minus_bin d p n k =
     int (d * 10 ^ nat p * 2 ^ nat (- k)) - int (n * 2 ^ nat k * 10 ^ nat (- p))"

text \<open>
  The decimal \<open>d * 10 ^ p\<close> reads back as the double \<open>M * 2 ^ E\<close>: it lies between
  the midpoints to the two neighbouring doubles (a midpoint itself goes to the even
  mantissa).
\<close>

definition reads_back :: "nat \<Rightarrow> int \<Rightarrow> nat \<times> int \<Rightarrow> bool" where
  "reads_back d p x = (case x of (M, E) \<Rightarrow>
     (let lo = (if M = 2 ^ 52 then dec_minus_bin d p (4 * M - 1) (E - 2)
                else dec_minus_bin d p (2 * M - 1) (E - 1));
          hi = dec_minus_bin d p (2 * M + 1) (E - 1) in
       (0 < lo \<and> hi < 0) \<or> (even M \<and> (lo = 0 \<or> hi = 0))))"

definition floor_log10 :: "nat \<times> int \<Rightarrow> int" where
  "floor_log10 x = (case x of (M, E) \<Rightarrow>
     (let a = M * 2 ^ nat E; b = 2 ^ nat (- E);
          k = int (num_digits 10 a) - int (num_digits 10 b) in
       if b * 10 ^ nat k \<le> a * 10 ^ nat (- k) then k else k - 1))"

definition candidates :: "nat \<times> int \<Rightarrow> nat \<Rightarrow> (nat \<times> int) list" where
  "candidates x n = (case x of (M, E) \<Rightarrow>
     (let p = floor_log10 x - int n + 1;
          num = M * 2 ^ nat E * 10 ^ nat (- p);
          den = 2 ^ nat (- E) * 10 ^ nat p;
          d = round_div num den in
       [(d, p), (if d * den \<le> num then d + 1 else d - 1, p)]))"

definition shortest_digits :: "nat \<times> int \<Rightarrow> nat \<times> int" where
  "shortest_digits x =
     (case List.find (\<lambda>c. reads_back (fst c) (snd c) x)
             (concat (map (candidates x) [1, 2, 3, 4, 5, 6, 7, 8, 9, 10, 11, 12, 13, 14, 15, 16, 17])) of
        Some c \<Rightarrow> c
      | None \<Rightarrow> hd (candidates x 17))"

definition strip_zeros :: "string \<Rightarrow> string" where
  "strip_zeros s = rev (dropWhile (\<lambda>c. c = CHR ''0'') (rev s))"

definition repr_digits :: "string \<Rightarrow> int \<Rightarrow> string" where
  "repr_digits ds decpt =
     (if decpt \<le> - 4 \<or> 16 < decpt then
        take 1 ds @ (if 1 < length ds then ''.'' @ drop 1 ds else []) @ ''e'' @
        (if decpt - 1 < 0 then ''-'' else ''+'') @ zero_pad 2 (show_nat (nat \<bar>decpt - 1\<bar>))
      else if decpt \<le> 0 then ''0.'' @ replicate (nat (- decpt)) CHR ''0'' @ ds
      else if nat decpt < length ds then take (nat decpt) ds @ ''.'' @ drop (nat decpt) ds
      else ds @ replicate (nat decpt - length ds) CHR ''0'' @ ''.0'')"

definition repr_float :: "pyfloat \<Rightarrow> string" where
  "repr_float v = (case v of
      NaN \<Rightarrow> ''nan''
    | PosInf \<Rightarrow> ''inf''
    | NegInf \<Rightarrow> ''-inf''
    | NegZero \<Rightarrow> ''-0.0''
    | Finite m e \<Rightarrow>
        if m = 0 then ''0.0'' else
        (let c = shortest_digits (canonical (nat \<bar>m\<bar>) e);
             ds = show_nat (fst c) in
          (if m < 0 then ''-'' else []) @ repr_digits (strip_zeros ds) (int (length ds) + snd c)))"

definition is_finite :: "pyfloat \<Rightarrow> bool" where
  "is_finite v = (case v of Finite m e \<Rightarrow> True | NegZero \<Rightarrow> True | _ \<Rightarrow> False)"

fun join :: "string \<Rightarrow> string list \<Rightarrow> string" where
  "join sep [] = []"
| "join sep [x] = x"
| "join sep (x # y # ys) = x @ sep @ join sep (y # ys)"

section \<open>The camera SDK, OpenCV and NumPy as the script sees them\<close>

text \<open>
  The script calls three libraries that are not part of the repository. Their answers
  are parameters of the model (the record \<open>world\<close> below); what the script does with
  the answers is translated from the source, statement by statement.
\<close>

datatype ERROR_CODE = SUCCESS | OTHER string

datatype RESOLUTION = HD2K | HD1080 | HD720 | VGA

datatype DEPTH_MODE = NONE | PERFORMANCE | QUALITY | ULTRA

datatype UNIT = MILLIMETER | CENTIMETER | METER | INCH | FOOT

datatype VIEW = VIEW_LEFT | VIEW_DEPTH

datatype MEASURE = MEASURE_DEPTH | MEASURE_XYZRGBA

text \<open>
  \<^verbatim>\<open>sl.InitParameters()\<close>: a field the script has not assigned holds the SDK's
  default, which the script does not know: \<open>None\<close>.
\<close>

record InitParameters =
  camera_resolution :: "RESOLUTION option"
  camera_fps :: "int option"
  depth_mode :: "DEPTH_MODE option"
  coordinate_units :: "UNIT option"

text \<open>
  One pixel of a matrix: a 32-bit float (raw depth), four unsigned bytes (B, G, R, A:
  the images) or four floats (the coloured point cloud). A matrix is a list of rows;
  a matrix that was never filled (\<^verbatim>\<open>sl.Mat()\<close>) has no rows.
\<close>

datatype cell =
    F32 pyfloat
  | U8_C4 "8 word" "8 word" "8 word" "8 word"
  | F32_C4 pyfloat pyfloat pyfloat pyfloat

type_synonym ndarray = "cell list list"

text \<open>The session of the camera, as section 4.5 of the specification names its states.\<close>

datatype session = Unopened | Opened | Grabbed | Closed

text \<open>Every call the script makes on a library, with the buffer it works on.\<close>

datatype call =
    Camera_open InitParameters ERROR_CODE
  | Exit
  | Get_camera_information
  | Grab ERROR_CODE
  | Retrieve_image nat VIEW
  | Retrieve_measure nat MEASURE
  | Get_timestamp
  | Mat_get_data nat
  | Mat_get_infos nat
  | Mat_get_value nat int int
  | Cv2_circle nat int int
  | Cv2_imshow string nat
  | Cv2_waitKey
  | Cv2_destroyAllWindows
  | Np_savetxt string nat
  | Camera_close

datatype exn = AttributeError | IndexError | RangeError | ValueError | Cv2Error

text \<open>The frame bundle one successful grab makes available.\<close>

record frame_bundle =
  left_image :: ndarray
  depth_map :: "pyfloat list list"
  depth_image :: ndarray
  point_cloud :: ndarray
  image_ns :: nat

text \<open>
  What the camera and the user do: the answers of \<^verbatim>\<open>open\<close> and \<^verbatim>\<open>grab\<close>, the
  pixels in front of the camera by row and column, the time of capture, the metadata
  the SDK reports for a matrix, OpenCV's rasteriser, and the keys pressed.
\<close>

record world =
  open_result :: ERROR_CODE
  serial_number :: nat
  grab_result :: ERROR_CODE
  default_resolution :: RESOLUTION
  left_at :: "nat \<Rightarrow> nat \<Rightarrow> cell"
  depth_at :: "nat \<Rightarrow> nat \<Rightarrow> pyfloat"
  view_at :: "nat \<Rightarrow> nat \<Rightarrow> cell"
  cloud_at :: "nat \<Rightarrow> nat \<Rightarrow> cell"
  capture_ns :: nat
  pixel_bytes :: "ndarray \<Rightarrow> nat"
  data_type :: "ndarray \<Rightarrow> string"
  infos :: "ndarray \<Rightarrow> string"
  step_bytes :: "ndarray \<Rightarrow> nat"
  on_circle :: "int \<times> int \<Rightarrow> nat \<Rightarrow> nat \<Rightarrow> int \<times> int \<Rightarrow> bool"
  key_presses :: nat

text \<open>
  Modelled from the spec: the matrices the SDK's retrieval hands out, which the
  repository calls (lines 56 to 67) and does not contain. Section 3: the depth matrix
  has one value per pixel; section 8: "Exported file row/column counts equal the depth
  matrix's configured resolution." The bundle of a session has, in each of its four
  matrices, one row per line and one column per pixel of the resolution the session
  was opened with (the SDK's own choice where the configuration names none). The sizes
  of the resolution tiers, width by height, are the SDK's; the comment on line 89 of
  the source shows size [1920,1080] under \<^verbatim>\<open>HD1080\<close>.
\<close>

definition resolution_size :: "RESOLUTION \<Rightarrow> nat \<times> nat" where
  "resolution_size r = (case r of HD2K \<Rightarrow> (2208, 1242) | HD1080 \<Rightarrow> (1920, 1080)
     | HD720 \<Rightarrow> (1280, 720) | VGA \<Rightarrow> (672, 376))"

definition tabulate :: "nat \<Rightarrow> nat \<Rightarrow> (nat \<Rightarrow> nat \<Rightarrow> 'a) \<Rightarrow> 'a list list" where
  "tabulate h wd f = map (\<lambda>i. map (f i) [0..<wd]) [0..<h]"

definition snapshot :: "world \<Rightarrow> InitParameters \<Rightarrow> frame_bundle" where
  "snapshot w p =
     (case resolution_size (case camera_resolution p of None \<Rightarrow> default_resolution w | Some r \<Rightarrow> r) of
        (wd, h) \<Rightarrow>
          \<lparr>left_image = tabulate h wd (left_at w),
           depth_map = tabulate h wd (depth_at w),
           depth_image = tabulate h wd (view_at w),
           point_cloud = tabulate h wd (cloud_at w),
           image_ns = capture_ns w\<rparr>)"

text \<open>
  The variables of the script, the configuration the session was opened with
  (\<open>session_params\<close>, the SDK's own copy), the buffers the matrices live in (\<open>heap\<close>, by address:
  \<^verbatim>\<open>get_data()\<close> hands out the matrix's own memory, not a copy), and what the run
  has printed, written and called so far.
\<close>

record state =
  timestamp :: "nat option"
  init_params :: InitParameters
  camera :: session
  session_params :: InitParameters
  err :: ERROR_CODE
  zed_serial :: nat
  image :: nat
  depth :: nat
  point :: nat
  depth_view :: nat
  image_data :: nat
  depth_data :: nat
  depth_imag :: nat
  point_data :: nat
  x_value :: int
  y_value :: int
  filename :: string
  heap :: "nat \<Rightarrow> ndarray"
  next_free :: nat
  keys_left :: nat
  stdout :: "string list"
  files :: "(string \<times> string) list"
  calls :: "call list"

datatype outcome = Normal state | Exited state | Raised exn state | Blocked state

fun final :: "outcome \<Rightarrow> state" where
  "final (Normal s) = s"
| "final (Exited s) = s"
| "final (Raised e s) = s"
| "final (Blocked s) = s"

text \<open>Statements in sequence: the next one runs only when the one before completed.\<close>

fun run :: "(state \<Rightarrow> outcome) list \<Rightarrow> state \<Rightarrow> outcome" where
  "run [] s = Normal s"
| "run (c # cs) s = (case c s of Normal s' \<Rightarrow> run cs s' | r \<Rightarrow> r)"

definition log_call :: "call \<Rightarrow> state \<Rightarrow> state" where
  "log_call c s = s\<lparr>calls := calls s @ [c]\<rparr>"

text \<open>\<^verbatim>\<open>print(text)\<close> writes the text and a newline.\<close>

definition print :: "string \<Rightarrow> state \<Rightarrow> state" where
  "print txt s = s\<lparr>stdout := stdout s @ [txt @ [CHR 0x0A]]\<rparr>"

definition repr_ERROR_CODE :: "ERROR_CODE \<Rightarrow> string" where
  "repr_ERROR_CODE c = (case c of SUCCESS \<Rightarrow> ''SUCCESS'' | OTHER n \<Rightarrow> n)"

text \<open>
  The text of one sampled pixel inside the printed tuple. The script samples the raw
  depth matrix only, whose pixels are floats; the other two cases are never printed.
\<close>

definition repr_cell :: "cell \<Rightarrow> string" where
  "repr_cell c = (case c of
      F32 v \<Rightarrow> repr_float v
    | U8_C4 b g r a \<Rightarrow>
        ''['' @ join '', '' (map (\<lambda>w. show_nat (unat w)) [b, g, r, a]) @ '']''
    | F32_C4 x y z c \<Rightarrow> ''['' @ join '', '' (map repr_float [x, y, z, c]) @ '']'')"

definition height :: "ndarray \<Rightarrow> nat" where
  "height m = length m"

definition width :: "ndarray \<Rightarrow> nat" where
  "width m = (case m of [] \<Rightarrow> 0 | r # _ \<Rightarrow> length r)"

definition is_F32 :: "cell \<Rightarrow> bool" where
  "is_F32 c = (case c of F32 _ \<Rightarrow> True | _ \<Rightarrow> False)"

text \<open>\<^verbatim>\<open>str(a.shape)\<close>: two dimensions for one channel, a third of 4 for four.\<close>

definition shape_str :: "ndarray \<Rightarrow> string" where
  "shape_str m = ''('' @ show_nat (height m) @ '', '' @ show_nat (width m) @
     (if m \<noteq> [] \<and> hd m \<noteq> [] \<and> \<not> is_F32 (hd (hd m)) then '', 4'' else []) @ '')''"

text \<open>
  Modelled from the spec: \<^verbatim>\<open>sl.Mat.get_value\<close>, the SDK's point sampler, which the
  repository calls (line 101) and does not contain. Section 4.4: "given integer pixel
  coordinates within image bounds, returns the depth value at that pixel plus a status
  code; returns not-a-number when depth is unresolved at that pixel. Out-of-bounds
  coordinates fail with a RangeError." The failure is the \<open>Inl\<close> result.
\<close>

definition in_bounds :: "ndarray \<Rightarrow> int \<Rightarrow> int \<Rightarrow> bool" where
  "in_bounds m x y = (0 \<le> y \<and> nat y < length m \<and> 0 \<le> x \<and> nat x < length (m ! nat y))"

definition get_value :: "ndarray \<Rightarrow> int \<Rightarrow> int \<Rightarrow> exn + ERROR_CODE \<times> cell" where
  "get_value m x y =
     (if in_bounds m x y then Inr (SUCCESS, m ! nat y ! nat x) else Inl RangeError)"

text \<open>
  \<^verbatim>\<open>numpy.savetxt(filename, X, fmt="%.8f")\<close> with the default delimiter (one space)
  and newline: one line per row of \<open>X\<close>.
\<close>

definition fmt_cell :: "cell \<Rightarrow> string" where
  "fmt_cell c = (case c of F32 v \<Rightarrow> format_f 8 v | _ \<Rightarrow> [])"

definition savetxt_row :: "cell list \<Rightarrow> string" where
  "savetxt_row row = join '' '' (map fmt_cell row) @ [CHR 0x0A]"

definition savetxt_text :: "ndarray \<Rightarrow> string" where
  "savetxt_text m = concat (map savetxt_row m)"

text \<open>
  \<^verbatim>\<open>cv2.circle(img, center, radius, color, thickness)\<close> draws into \<open>img\<close> itself.
  Which pixels OpenCV's rasteriser touches is the world's \<open>on_circle\<close>; each of them
  takes the colour \<^verbatim>\<open>(0, 0, 255)\<close>, the fourth channel 0.
\<close>

definition draw_circle :: "world \<Rightarrow> int \<times> int \<Rightarrow> nat \<Rightarrow> nat \<Rightarrow> ndarray \<Rightarrow> ndarray" where
  "draw_circle w c r t m =
     map (\<lambda>(i, row). map (\<lambda>(j, px). if on_circle w c r t (int j, int i) then U8_C4 0 0 255 0 else px)
                        (enumerate 0 row))
         (enumerate 0 m)"

section \<open>The script, statement by statement\<close>

text \<open>Line 12: \<^verbatim>\<open>timestamp = None\<close>.\<close>

definition timestamp_None :: "state \<Rightarrow> outcome" where
  "timestamp_None s = Normal (s\<lparr>timestamp := None\<rparr>)"

text \<open>Line 18: \<^verbatim>\<open>zed = sl.Camera()\<close>.\<close>

definition new_Camera :: "state \<Rightarrow> outcome" where
  "new_Camera s = Normal (s\<lparr>camera := Unopened\<rparr>)"

text \<open>Lines 21 to 25: the configuration.\<close>

definition new_InitParameters :: "state \<Rightarrow> outcome" where
  "new_InitParameters s = Normal (s\<lparr>init_params :=
     \<lparr>camera_resolution = None, camera_fps = None, depth_mode = None, coordinate_units = None\<rparr>\<rparr>)"

definition set_camera_resolution :: "RESOLUTION \<Rightarrow> state \<Rightarrow> outcome" where
  "set_camera_resolution r s = Normal (s\<lparr>init_params := (init_params s)\<lparr>camera_resolution := Some r\<rparr>\<rparr>)"

definition set_camera_fps :: "int \<Rightarrow> state \<Rightarrow> outcome" where
  "set_camera_fps n s = Normal (s\<lparr>init_params := (init_params s)\<lparr>camera_fps := Some n\<rparr>\<rparr>)"

definition set_depth_mode :: "DEPTH_MODE \<Rightarrow> state \<Rightarrow> outcome" where
  "set_depth_mode d s = Normal (s\<lparr>init_params := (init_params s)\<lparr>depth_mode := Some d\<rparr>\<rparr>)"

definition set_coordinate_units :: "UNIT \<Rightarrow> state \<Rightarrow> outcome" where
  "set_coordinate_units u s = Normal (s\<lparr>init_params := (init_params s)\<lparr>coordinate_units := Some u\<rparr>\<rparr>)"

text \<open>
  Lines 30 to 32: \<^verbatim>\<open>err = zed.open(init_params)\<close>, and \<^verbatim>\<open>exit()\<close> when the code is
  not \<^verbatim>\<open>SUCCESS\<close>.
\<close>

definition open_or_exit :: "world \<Rightarrow> state \<Rightarrow> outcome" where
  "open_or_exit w s =
     (let e = open_result w;
          s' = log_call (Camera_open (init_params s) e)
                 (s\<lparr>err := e, session_params := init_params s,
                    camera := (if e = SUCCESS then Opened else camera s)\<rparr>)
      in if e \<noteq> SUCCESS then Exited (log_call Exit s') else Normal s')"

text \<open>Lines 36 and 37.\<close>

definition print_serial :: "world \<Rightarrow> state \<Rightarrow> outcome" where
  "print_serial w s =
     (let s' = log_call Get_camera_information (s\<lparr>zed_serial := serial_number w\<rparr>)
      in Normal (print (''Hello! This is my serial number: '' @ show_nat (zed_serial s')) s'))"

text \<open>Lines 42 to 45: \<^verbatim>\<open>sl.Mat()\<close>, a new matrix with a buffer of its own, not yet filled.\<close>

definition new_Mat :: "(nat \<Rightarrow> state \<Rightarrow> state) \<Rightarrow> state \<Rightarrow> outcome" where
  "new_Mat assign s =
     Normal (assign (next_free s)
       (s\<lparr>heap := (heap s)(next_free s := []), next_free := Suc (next_free s)\<rparr>))"

text \<open>
  Lines 56 to 73, the body of the branch on \<^verbatim>\<open>grab\<close>. Each retrieval copies one
  matrix of the session's frame bundle into the buffer of the matrix it is given.
\<close>

definition retrieve_image :: "world \<Rightarrow> (state \<Rightarrow> nat) \<Rightarrow> VIEW \<Rightarrow> state \<Rightarrow> outcome" where
  "retrieve_image w mat v s =
     Normal (log_call (Retrieve_image (mat s) v)
       (s\<lparr>heap := (heap s)(mat s :=
            (case v of VIEW_LEFT \<Rightarrow> left_image (snapshot w (session_params s))
                     | VIEW_DEPTH \<Rightarrow> depth_image (snapshot w (session_params s))))\<rparr>))"

definition retrieve_measure :: "world \<Rightarrow> (state \<Rightarrow> nat) \<Rightarrow> MEASURE \<Rightarrow> state \<Rightarrow> outcome" where
  "retrieve_measure w mat m s =
     Normal (log_call (Retrieve_measure (mat s) m)
       (s\<lparr>heap := (heap s)(mat s :=
            (case m of MEASURE_DEPTH \<Rightarrow> map (map F32) (depth_map (snapshot w (session_params s)))
                     | MEASURE_XYZRGBA \<Rightarrow> point_cloud (snapshot w (session_params s))))\<rparr>))"

definition get_timestamp :: "world \<Rightarrow> state \<Rightarrow> outcome" where
  "get_timestamp w s = Normal (log_call Get_timestamp (s\<lparr>timestamp := Some (image_ns (snapshot w (session_params s)))\<rparr>))"

text \<open>\<^verbatim>\<open>timestamp.get_milliseconds()\<close>: the timestamp is kept in nanoseconds (line 53).\<close>

definition get_milliseconds :: "nat \<Rightarrow> nat" where
  "get_milliseconds ns = ns div 1000000"

definition print_resolution :: "state \<Rightarrow> outcome" where
  "print_resolution s =
     (case timestamp s of
        None \<Rightarrow> Raised AttributeError s
      | Some ns \<Rightarrow>
          Normal (print (''Image resolution: '' @ show_nat (width (heap s (image s))) @ '' x '' @
                         show_nat (height (heap s (image s))) @ '' || Image timestamp: '' @
                         show_nat (get_milliseconds ns) @ [CHR 0x0A]) s))"

text \<open>Line 50: the branch itself. Nothing follows it in an \<^verbatim>\<open>else\<close>.\<close>

definition grab_block :: "world \<Rightarrow> state \<Rightarrow> outcome" where
  "grab_block w s =
     (let r = grab_result w;
          s' = log_call (Grab r) (s\<lparr>camera := (if r = SUCCESS then Grabbed else camera s)\<rparr>)
      in if r = SUCCESS then
           run [retrieve_image w image VIEW_LEFT,
                retrieve_measure w depth MEASURE_DEPTH,
                retrieve_image w depth_view VIEW_DEPTH,
                retrieve_measure w point MEASURE_XYZRGBA,
                get_timestamp w,
                print_resolution] s'
         else Normal s')"

text \<open>Lines 80 to 83: \<^verbatim>\<open>get_data()\<close> gives the array that shares the matrix's buffer.\<close>

definition get_data :: "(nat \<Rightarrow> state \<Rightarrow> state) \<Rightarrow> (state \<Rightarrow> nat) \<Rightarrow> state \<Rightarrow> outcome" where
  "get_data assign mat s = Normal (log_call (Mat_get_data (mat s)) (assign (mat s) s))"

text \<open>Lines 85 to 90: four values and four newlines, separated by spaces.\<close>

definition print_infos :: "world \<Rightarrow> state \<Rightarrow> outcome" where
  "print_infos w s =
     (let m = heap s (depth s) in
      Normal (print (join '' '' [show_nat (pixel_bytes w m), [CHR 0x0A], data_type w m, [CHR 0x0A],
                                infos w m, [CHR 0x0A], show_nat (step_bytes w m), [CHR 0x0A]])
                (log_call (Mat_get_infos (depth s)) s)))"

text \<open>Line 91.\<close>

definition print_shape :: "state \<Rightarrow> outcome" where
  "print_shape s = Normal (print (shape_str (heap s (depth_data s))) s)"

text \<open>Line 92: \<^verbatim>\<open>depth_data[0][0]\<close> raises \<^verbatim>\<open>IndexError\<close> on an array with no element.\<close>

definition print_element_type :: "state \<Rightarrow> outcome" where
  "print_element_type s =
     (let m = heap s (depth_data s) in
      if m = [] \<or> hd m = [] then Raised IndexError s
      else Normal (print (if is_F32 (hd (hd m)) then ''<class 'numpy.float32'>''
                          else ''<class 'numpy.ndarray'>'') s))"

text \<open>Lines 97 and 98.\<close>

definition assign_xy :: "state \<Rightarrow> outcome" where
  "assign_xy s = Normal (s\<lparr>x_value := 1000, y_value := 600\<rparr>)"

text \<open>
  Lines 99 to 103: the sampler's answer, a tuple of status and value, is formatted with
  \<^verbatim>\<open>str.format\<close>, which prints each component with \<^verbatim>\<open>repr\<close>. The script has no
  handler: a failure of the sampler ends the run.
\<close>

definition print_sample :: "state \<Rightarrow> outcome" where
  "print_sample s =
     (let s' = log_call (Mat_get_value (depth s) (x_value s) (y_value s)) s in
      case get_value (heap s (depth s)) (x_value s) (y_value s) of
        Inl e \<Rightarrow> Raised e s'
      | Inr (st, v) \<Rightarrow>
          Normal (print (''The depth of the '' @ show_int (x_value s) @ '' '' @ show_int (y_value s) @
                         '' is ('' @ repr_ERROR_CODE st @ '', '' @ repr_cell v @ '')'') s'))"

text \<open>Line 107.\<close>

definition circle :: "world \<Rightarrow> state \<Rightarrow> outcome" where
  "circle w s =
     (let a = image_data s in
      Normal (log_call (Cv2_circle a (x_value s) (y_value s))
        (s\<lparr>heap := (heap s)(a := draw_circle w (x_value s, y_value s) 5 1 (heap s a))\<rparr>)))"

text \<open>Lines 108 and 113: \<^verbatim>\<open>cv2.imshow\<close> refuses an image without pixels.\<close>

definition imshow :: "string \<Rightarrow> (state \<Rightarrow> nat) \<Rightarrow> state \<Rightarrow> outcome" where
  "imshow name arr s =
     (let s' = log_call (Cv2_imshow name (arr s)) s in
      if height (heap s (arr s)) = 0 \<or> width (heap s (arr s)) = 0 then Raised Cv2Error s'
      else Normal s')"

text \<open>Lines 109 and 114: \<^verbatim>\<open>cv2.waitKey(0)\<close> returns when a key is pressed, not before.\<close>

definition waitKey :: "state \<Rightarrow> outcome" where
  "waitKey s =
     (let s' = log_call Cv2_waitKey s in
      if keys_left s = 0 then Blocked s' else Normal (s'\<lparr>keys_left := keys_left s - 1\<rparr>))"

text \<open>Lines 110 and 115.\<close>

definition destroyAllWindows :: "state \<Rightarrow> outcome" where
  "destroyAllWindows s = Normal (log_call Cv2_destroyAllWindows s)"

text \<open>Line 120: \<^verbatim>\<open>timestamp\<close> is still \<^verbatim>\<open>None\<close> when the branch was not taken.\<close>

definition make_filename :: "state \<Rightarrow> outcome" where
  "make_filename s =
     (case timestamp s of
        None \<Rightarrow> Raised AttributeError s
      | Some ns \<Rightarrow> Normal (s\<lparr>filename := show_nat (get_milliseconds ns) @ ''.txt''\<rparr>))"

text \<open>Line 121: \<^verbatim>\<open>savetxt\<close> takes arrays of one or two dimensions only.\<close>

definition savetxt :: "state \<Rightarrow> outcome" where
  "savetxt s =
     (let m = heap s (depth_data s);
          s' = log_call (Np_savetxt (filename s) (depth_data s)) s in
      if list_all (list_all is_F32) m
      then Normal (s'\<lparr>files := files s' @ [(filename s, savetxt_text m)]\<rparr>)
      else Raised ValueError s')"

text \<open>Line 124.\<close>

definition close :: "state \<Rightarrow> outcome" where
  "close s = Normal (log_call Camera_close (s\<lparr>camera := Closed\<rparr>))"

text \<open>The statements in the order of the source.\<close>

definition configure :: "(state \<Rightarrow> outcome) list" where
  "configure =
     [timestamp_None,
      new_Camera,
      new_InitParameters,
      set_camera_resolution HD1080,
      set_camera_fps 30,
      set_depth_mode PERFORMANCE,
      set_coordinate_units MILLIMETER]"

definition acquisition :: "world \<Rightarrow> (state \<Rightarrow> outcome) list" where
  "acquisition w =
     [print_serial w,
      new_Mat (\<lambda>a s. s\<lparr>image := a\<rparr>),
      new_Mat (\<lambda>a s. s\<lparr>depth := a\<rparr>),
      new_Mat (\<lambda>a s. s\<lparr>point := a\<rparr>),
      new_Mat (\<lambda>a s. s\<lparr>depth_view := a\<rparr>),
      grab_block w]"

definition processing :: "world \<Rightarrow> (state \<Rightarrow> outcome) list" where
  "processing w =
     [get_data (\<lambda>a s. s\<lparr>image_data := a\<rparr>) image,
      get_data (\<lambda>a s. s\<lparr>depth_data := a\<rparr>) depth,
      get_data (\<lambda>a s. s\<lparr>depth_imag := a\<rparr>) depth_view,
      get_data (\<lambda>a s. s\<lparr>point_data := a\<rparr>) point,
      print_infos w,
      print_shape,
      print_element_type,
      assign_xy,
      print_sample,
      circle w,
      imshow ''LEFT View'' image_data,
      waitKey,
      destroyAllWindows,
      imshow ''Depth View'' depth_imag,
      waitKey,
      destroyAllWindows,
      make_filename,
      savetxt,
      close]"

definition after_open :: "world \<Rightarrow> (state \<Rightarrow> outcome) list" where
  "after_open w = acquisition w @ processing w"

definition script :: "world \<Rightarrow> (state \<Rightarrow> outcome) list" where
  "script w = configure @ [open_or_exit w] @ after_open w"

text \<open>Before the first statement nothing is printed, written or called.\<close>

definition initial :: "world \<Rightarrow> state" where
  "initial w =
     \<lparr>timestamp = None,
      init_params = \<lparr>camera_resolution = None, camera_fps = None, depth_mode = None,
                     coordinate_units = None\<rparr>,
      camera = Unopened,
      session_params = \<lparr>camera_resolution = None, camera_fps = None, depth_mode = None,
                        coordinate_units = None\<rparr>,
      err = SUCCESS, zed_serial = 0,
      image = 0, depth = 0, point = 0, depth_view = 0,
      image_data = 0, depth_data = 0, depth_imag = 0, point_data = 0,
      x_value = 0, y_value = 0, filename = [],
      heap = (\<lambda>a. []), next_free = 0, keys_left = key_presses w,
      stdout = [], files = [], calls = []\<rparr>"

definition main :: "world \<Rightarrow> outcome" where
  "main w = run (script w) (initial w)"

section \<open>States the run passes through\<close>

text \<open>The configuration the script builds in lines 21 to 25.\<close>

definition script_params :: InitParameters where
  "script_params = \<lparr>camera_resolution = Some HD1080, camera_fps = Some 30,
     depth_mode = Some PERFORMANCE, coordinate_units = Some MILLIMETER\<rparr>"

text \<open>The frame bundle of the session the script opens.\<close>

definition frame :: "world \<Rightarrow> frame_bundle" where
  "frame w = snapshot w script_params"

definition configured :: "world \<Rightarrow> state" where
  "configured w = (initial w)\<lparr>init_params := script_params\<rparr>"

text \<open>The state after \<^verbatim>\<open>zed.open\<close> has answered (line 30).\<close>

definition opened :: "world \<Rightarrow> state" where
  "opened w = log_call (Camera_open (init_params (configured w)) (open_result w))
     ((configured w)\<lparr>err := open_result w, session_params := init_params (configured w),
        camera := (if open_result w = SUCCESS then Opened else camera (configured w))\<rparr>)"

text \<open>The state after the branch on \<^verbatim>\<open>grab\<close> (line 73), whichever way it went.\<close>

definition grabbed :: "world \<Rightarrow> state" where
  "grabbed w = final (run (acquisition w) (opened w))"

text \<open>The calls a run has made, whatever way it ended.\<close>

definition calls_of :: "outcome \<Rightarrow> call list" where
  "calls_of r = calls (final r)"

text \<open>
  The calls that read the frame bundle of the session: \<^verbatim>\<open>retrieve_image\<close>,
  \<^verbatim>\<open>retrieve_measure\<close> and \<^verbatim>\<open>get_timestamp\<close>.
\<close>

definition is_retrieval :: "call \<Rightarrow> bool" where
  "is_retrieval c = (case c of Retrieve_image a v \<Rightarrow> True | Retrieve_measure a m \<Rightarrow> True
     | Get_timestamp \<Rightarrow> True | _ \<Rightarrow> False)"

text \<open>
  A list of calls read from the left: every retrieval stands after a \<^verbatim>\<open>grab\<close> that
  answered \<^verbatim>\<open>SUCCESS\<close> (\<open>seen\<close>: one stood before the list).
\<close>

fun guarded :: "bool \<Rightarrow> call list \<Rightarrow> bool" where
  "guarded seen [] = True"
| "guarded seen (c # cs) = ((is_retrieval c \<longrightarrow> seen) \<and> guarded (seen \<or> c = Grab SUCCESS) cs)"

section \<open>Worlds to run the script in\<close>

text \<open>
  A camera in front of a flat wall: every depth is
  \<open>11629993 / 2 ^ 14 = 709.83843994140625\<close> millimetres, the float that Python writes
  \<^verbatim>\<open>709.8384399414062\<close>; the user presses a key for each window.
\<close>

definition world_hd1080 :: world where
  "world_hd1080 =
     \<lparr>open_result = SUCCESS,
      serial_number = 12345,
      grab_result = SUCCESS,
      default_resolution = HD720,
      left_at = (\<lambda>i j. U8_C4 10 20 30 255),
      depth_at = (\<lambda>i j. Finite 11629993 (- 14)),
      view_at = (\<lambda>i j. U8_C4 90 90 90 255),
      cloud_at = (\<lambda>i j. F32_C4 NaN NaN NaN NaN),
      capture_ns = 1709651329565919300,
      pixel_bytes = (\<lambda>m. 4),
      data_type = (\<lambda>m. ''MAT_TYPE.F32_C1''),
      infos = (\<lambda>m. ''sl::Mat of size [1920,1080]''),
      step_bytes = (\<lambda>m. 7680),
      on_circle = (\<lambda>c r t p. (fst p - fst c) ^ 2 + (snd p - snd c) ^ 2 = int (r * r)),
      key_presses = 2\<rparr>"

text \<open>The same camera, not plugged in.\<close>

definition world_no_camera :: world where
  "world_no_camera = world_hd1080\<lparr>open_result := OTHER ''CAMERA_NOT_DETECTED''\<rparr>"

fun split_on :: "char \<Rightarrow> string \<Rightarrow> string list" where
  "split_on c [] = [[]]"
| "split_on c (x # xs) =
     (if x = c then [] # split_on c xs
      else (case split_on c xs of [] \<Rightarrow> [[x]] | y # ys \<Rightarrow> (x # y) # ys))"

definition fields_of :: "string \<Rightarrow> string list" where
  "fields_of line = split_on CHR '' '' line"

definition lines_of :: "string \<Rightarrow> string list" where
  "lines_of t = (let ps = split_on (CHR 0x0A) t in if last ps = [] then butlast ps else ps)"

definition usable :: "world \<Rightarrow> bool" where
  "usable w = (open_result w = SUCCESS \<and> grab_result w = SUCCESS \<and>
     depth_map (frame w) \<noteq> [] \<and> hd (depth_map (frame w)) \<noteq> [] \<and>
     600 < length (depth_map (frame w)) \<and> 1000 < length (depth_map (frame w) ! 600) \<and>
     height (left_image (frame w)) \<noteq> 0 \<and> width (left_image (frame w)) \<noteq> 0 \<and>
     height (depth_image (frame w)) \<noteq> 0 \<and> width (depth_image (frame w)) \<noteq> 0 \<and>
     2 \<le> key_presses w)"

definition sample_text :: "pyfloat \<Rightarrow> string" where
  "sample_text v = ''The depth of the 1000 600 is (SUCCESS, '' @ repr_float v @ '')'' @ [CHR 0x0A]"

definition export_name :: "world \<Rightarrow> string" where
  "export_name w = show_nat (get_milliseconds (image_ns (frame w))) @ ''.txt''"

definition depth_array :: "world \<Rightarrow> ndarray" where
  "depth_array w = map (map F32) (depth_map (frame w))"

definition usable_calls :: "world \<Rightarrow> call list" where
  "usable_calls w =
     [Camera_open script_params SUCCESS, Get_camera_information, Grab SUCCESS,
      Retrieve_image 0 VIEW_LEFT, Retrieve_measure 1 MEASURE_DEPTH,
      Retrieve_image 3 VIEW_DEPTH, Retrieve_measure 2 MEASURE_XYZRGBA, Get_timestamp,
      Mat_get_data 0, Mat_get_data 1, Mat_get_data 3, Mat_get_data 2, Mat_get_infos 1,
      Mat_get_value 1 1000 600, Cv2_circle 0 1000 600,
      Cv2_imshow ''LEFT View'' 0, Cv2_waitKey, Cv2_destroyAllWindows,
      Cv2_imshow ''Depth View'' 3, Cv2_waitKey, Cv2_destroyAllWindows,
      Np_savetxt (export_name w) 1, Camera_close]"

definition is_digit :: "char \<Rightarrow> bool" where
  "is_digit c = (c \<in> set ''0123456789'')"

definition fixed_decimal :: "nat \<Rightarrow> string \<Rightarrow> bool" where
  "fixed_decimal p s =
     (let t = (if take 1 s = ''-'' then drop 1 s else s);
          ip = takeWhile is_digit t;
          rest = dropWhile is_digit t
      in ip \<noteq> [] \<and> take 1 rest = ''.'' \<and> list_all is_digit (drop 1 rest) \<and> length (drop 1 rest) = p)"

definition has_shape :: "'a list list \<Rightarrow> nat \<Rightarrow> nat \<Rightarrow> bool" where
  "has_shape m h wd = (length m = h \<and> list_all (\<lambda>r. length r = wd) m)"

text \<open>
  The same wall with the left column of pixels unresolved, the next too far and the
  next too close.
\<close>

definition world_nan :: world where
  "world_nan = world_hd1080\<lparr>depth_at := (\<lambda>i j. if j = 0 then NaN else if j = 1 then PosInf
     else if j = 2 then NegInf else Finite 11629993 (- 14))\<rparr>"

definition world_grab_fails :: world where
  "world_grab_fails = world_hd1080\<lparr>grab_result := OTHER ''END_OF_SVOFILE_REACHED''\<rparr>"



section \<open>Properties\<close>

lemma run_append: "run (xs @ ys) s = (case run xs s of Normal s' \<Rightarrow> run ys s' | r \<Rightarrow> r)"
  by (induction xs arbitrary: s) (auto split: outcome.splits)

lemma run_configure: "run configure (initial w) = Normal (configured w)"
  by (simp add: configure_def configured_def script_params_def initial_def timestamp_None_def
      new_Camera_def new_InitParameters_def set_camera_resolution_def set_camera_fps_def
      set_depth_mode_def set_coordinate_units_def)

lemma main_unfold:
  "main w = (if open_result w \<noteq> SUCCESS then Exited (log_call Exit (opened w))
             else run (after_open w) (opened w))"
  by (simp add: main_def script_def run_append run_configure open_or_exit_def Let_def opened_def)

text \<open>
  C5. When \<^verbatim>\<open>zed.open\<close> answers anything but \<^verbatim>\<open>SUCCESS\<close>, the run ends at
  \<^verbatim>\<open>exit()\<close>: the only calls made are the open and the exit, nothing is printed, no
  file is written, and the session was never opened. No grab, retrieval, sampling,
  display or export is among the calls.
\<close>

theorem open_failure_exits:
  assumes "open_result w \<noteq> SUCCESS"
  shows "\<exists>s. main w = Exited s \<and> calls s = [Camera_open script_params (open_result w), Exit] \<and>
           stdout s = [] \<and> files s = [] \<and> camera s = Unopened"
  using assms by (simp add: main_unfold opened_def log_call_def configured_def initial_def)

theorem open_failure_exits_witness:
  "\<exists>s. main world_no_camera = Exited s \<and>
       calls s = [Camera_open script_params (OTHER ''CAMERA_NOT_DETECTED''), Exit] \<and>
       stdout s = [] \<and> files s = [] \<and> camera s = Unopened"
  using open_failure_exits [of world_no_camera] by (simp add: world_no_camera_def)

lemma run_calls_invariant:
  assumes "\<And>c s. c \<in> set cs \<Longrightarrow> Q (calls s) \<Longrightarrow> Q (calls_of (c s))"
    and "Q (calls s)"
  shows "Q (calls_of (run cs s))"
  using assms
proof (induction cs arbitrary: s)
  case Nil
  then show ?case by (simp add: calls_of_def)
next
  case (Cons c cs)
  have step: "Q (calls_of (c s))" using Cons.prems by simp
  show ?case
  proof (cases "c s")
    case (Normal s')
    then have "Q (calls s')" using step by (simp add: calls_of_def)
    then have "Q (calls_of (run cs s'))" using Cons.IH Cons.prems(1) by simp
    then show ?thesis using Normal by simp
  qed (use step in \<open>simp_all add: calls_of_def\<close>)
qed

lemma calls_simple [simp]:
  "calls_of (print_serial w s) = calls s @ [Get_camera_information]"
  "calls_of (get_data f mat s) = calls (f (mat s) s) @ [Mat_get_data (mat s)]"
  "calls_of (print_infos w s) = calls s @ [Mat_get_infos (depth s)]"
  "calls_of (print_shape s) = calls s"
  "calls_of (print_element_type s) = calls s"
  "calls_of (assign_xy s) = calls s"
  "calls_of (print_sample s) = calls s @ [Mat_get_value (depth s) (x_value s) (y_value s)]"
  "calls_of (circle w s) = calls s @ [Cv2_circle (image_data s) (x_value s) (y_value s)]"
  "calls_of (imshow n arr s) = calls s @ [Cv2_imshow n (arr s)]"
  "calls_of (waitKey s) = calls s @ [Cv2_waitKey]"
  "calls_of (destroyAllWindows s) = calls s @ [Cv2_destroyAllWindows]"
  "calls_of (make_filename s) = calls s"
  "calls_of (savetxt s) = calls s @ [Np_savetxt (filename s) (depth_data s)]"
  "calls_of (close s) = calls s @ [Camera_close]"
  by (simp_all add: calls_of_def print_serial_def get_data_def print_infos_def print_shape_def
      print_element_type_def assign_xy_def print_sample_def circle_def imshow_def waitKey_def
      destroyAllWindows_def make_filename_def savetxt_def close_def log_call_def print_def Let_def
      split: sum.splits option.splits prod.splits)

lemma calls_new_Mat [simp]:
  "calls_of (new_Mat f s) =
     calls (f (next_free s) (s\<lparr>heap := (heap s)(next_free s := []), next_free := Suc (next_free s)\<rparr>))"
  by (simp add: calls_of_def new_Mat_def)

lemma calls_grab_block:
  "calls_of (grab_block w s) = calls s @ Grab (grab_result w) #
     (if grab_result w = SUCCESS
      then [Retrieve_image (image s) VIEW_LEFT, Retrieve_measure (depth s) MEASURE_DEPTH,
            Retrieve_image (depth_view s) VIEW_DEPTH, Retrieve_measure (point s) MEASURE_XYZRGBA,
            Get_timestamp]
      else [])"
  by (simp add: calls_of_def grab_block_def retrieve_image_def retrieve_measure_def get_timestamp_def
      print_resolution_def log_call_def print_def Let_def)


lemma guarded_append:
  "guarded b (xs @ ys) = (guarded b xs \<and> guarded (b \<or> Grab SUCCESS \<in> set xs) ys)"
proof (induction xs arbitrary: b)
  case Nil
  then show ?case by simp
next
  case (Cons c xs)
  have eq: "(b \<or> Grab SUCCESS \<in> set (c # xs)) = ((b \<or> c = Grab SUCCESS) \<or> Grab SUCCESS \<in> set xs)"
    by auto
  show ?case unfolding eq by (simp add: Cons.IH)
qed

lemma guarded_nth:
  "guarded b cs \<Longrightarrow> i < length cs \<Longrightarrow> is_retrieval (cs ! i) \<Longrightarrow> b \<or> (\<exists>j<i. cs ! j = Grab SUCCESS)"
proof (induction cs arbitrary: b i)
  case Nil
  then show ?case by simp
next
  case (Cons c cs)
  show ?case
  proof (cases i)
    case 0
    then show ?thesis using Cons.prems by simp
  next
    case (Suc k)
    have "guarded (b \<or> c = Grab SUCCESS) cs" "k < length cs" "is_retrieval (cs ! k)"
      using Cons.prems Suc by simp_all
    from Cons.IH [OF this] show ?thesis
    proof
      assume "b \<or> c = Grab SUCCESS"
      then show ?thesis using Suc by auto
    next
      assume "\<exists>j<k. cs ! j = Grab SUCCESS"
      then obtain j where "j < k" "cs ! j = Grab SUCCESS" by blast
      then have "Suc j < i \<and> (c # cs) ! Suc j = Grab SUCCESS" using Suc by simp
      then show ?thesis by blast
    qed
  qed
qed

lemma after_open_guarded:
  assumes "c \<in> set (after_open w)" and "guarded False (calls s)"
  shows "guarded False (calls_of (c s))"
  using assms
  by (auto simp add: after_open_def acquisition_def processing_def guarded_append calls_grab_block
      is_retrieval_def)

lemma main_guarded: "guarded False (calls_of (main w))"
proof (cases "open_result w = SUCCESS")
  case True
  have "guarded False (calls (opened w))"
    by (simp add: opened_def log_call_def configured_def initial_def is_retrieval_def)
  then have "guarded False (calls_of (run (after_open w) (opened w)))"
    using after_open_guarded by (rule run_calls_invariant [rotated])
  then show ?thesis using True by (simp add: main_unfold)
next
  case False
  then show ?thesis
    by (simp add: main_unfold calls_of_def opened_def log_call_def configured_def initial_def
        is_retrieval_def)
qed

lemma run_acquisition: "run (acquisition w) (opened w) = Normal (grabbed w)"
  by (simp add: grabbed_def acquisition_def print_serial_def new_Mat_def grab_block_def
      retrieve_image_def retrieve_measure_def get_timestamp_def print_resolution_def
      log_call_def print_def Let_def)

lemma main_processing:
  "open_result w = SUCCESS \<Longrightarrow> main w = run (processing w) (grabbed w)"
  by (simp add: main_unfold after_open_def run_append run_acquisition)

lemma grabbed_calls:
  "calls (grabbed w) = [Camera_open script_params (open_result w), Get_camera_information,
       Grab (grab_result w)] @
     (if grab_result w = SUCCESS
      then [Retrieve_image 0 VIEW_LEFT, Retrieve_measure 1 MEASURE_DEPTH,
            Retrieve_image 3 VIEW_DEPTH, Retrieve_measure 2 MEASURE_XYZRGBA, Get_timestamp]
      else [])"
  by (simp add: grabbed_def acquisition_def print_serial_def new_Mat_def grab_block_def
      retrieve_image_def retrieve_measure_def get_timestamp_def print_resolution_def
      log_call_def print_def Let_def opened_def configured_def initial_def)

lemma processing_extends:
  assumes "c \<in> set (processing w)" and "\<exists>ds. calls s = base @ ds"
  shows "\<exists>ds. calls_of (c s) = base @ ds"
  using assms by (auto simp add: processing_def)

lemma main_calls_prefix:
  assumes "open_result w = SUCCESS"
  shows "\<exists>ds. calls_of (main w) = calls (grabbed w) @ ds"
proof -
  have "\<exists>ds. calls (grabbed w) = calls (grabbed w) @ ds" by simp
  then have "\<exists>ds. calls_of (run (processing w) (grabbed w)) = calls (grabbed w) @ ds"
    using processing_extends by (rule run_calls_invariant [rotated])
  then show ?thesis using assms by (simp add: main_processing)
qed

text \<open>
  C7. In every run, however it ends, each call of \<^verbatim>\<open>retrieve_image\<close>,
  \<^verbatim>\<open>retrieve_measure\<close> or \<^verbatim>\<open>get_timestamp\<close> stands in the sequence of calls after
  a call of \<^verbatim>\<open>grab\<close> that answered \<^verbatim>\<open>SUCCESS\<close>.
\<close>

theorem retrieval_only_after_grab:
  "\<forall>i<length (calls_of (main w)). is_retrieval (calls_of (main w) ! i) \<longrightarrow>
     (\<exists>j<i. calls_of (main w) ! j = Grab SUCCESS)"
  using guarded_nth [OF main_guarded] by blast


theorem retrieval_only_after_grab_witness:
  "is_retrieval (calls_of (main world_hd1080) ! 3) \<and>
   (\<exists>j<3. calls_of (main world_hd1080) ! j = Grab SUCCESS)"
proof -
  have ok: "open_result world_hd1080 = SUCCESS" "grab_result world_hd1080 = SUCCESS"
    by (simp_all add: world_hd1080_def)
  obtain ds where ds: "calls_of (main world_hd1080) = calls (grabbed world_hd1080) @ ds"
    using main_calls_prefix [OF ok(1)] by blast
  have third: "calls_of (main world_hd1080) ! 3 = Retrieve_image 0 VIEW_LEFT"
    by (simp add: ds grabbed_calls ok)
  have len: "3 < length (calls_of (main world_hd1080))"
    by (simp add: ds grabbed_calls ok)
  have "is_retrieval (calls_of (main world_hd1080) ! 3)"
    by (simp add: third is_retrieval_def)
  then show ?thesis using retrieval_only_after_grab [of world_hd1080] len by blast
qed

lemmas acquisition_defs = grabbed_def acquisition_def print_serial_def new_Mat_def grab_block_def
      retrieve_image_def retrieve_measure_def get_timestamp_def print_resolution_def
      log_call_def print_def Let_def opened_def configured_def initial_def

lemma grabbed_vars [simp]:
  "image (grabbed w) = 0" "depth (grabbed w) = 1" "point (grabbed w) = 2" "depth_view (grabbed w) = 3"
  "keys_left (grabbed w) = key_presses w" "files (grabbed w) = []"
  "init_params (grabbed w) = script_params"
  by (simp_all add: acquisition_defs)

lemma grabbed_success [simp]:
  assumes "grab_result w = SUCCESS"
  shows "heap (grabbed w) 0 = left_image (frame w)"
    and "heap (grabbed w) (Suc 0) = map (map F32) (depth_map (frame w))"
    and "heap (grabbed w) 2 = point_cloud (frame w)"
    and "heap (grabbed w) 3 = depth_image (frame w)"
    and "timestamp (grabbed w) = Some (image_ns (frame w))"
  using assms by (simp_all add: acquisition_defs frame_def)

lemma grabbed_failure [simp]:
  assumes "grab_result w \<noteq> SUCCESS"
  shows "heap (grabbed w) a = []" and "timestamp (grabbed w) = None"
  using assms by (simp_all add: acquisition_defs)

lemma show_1000: "show_int 1000 = ''1000''"
  by (simp add: show_int_def show_nat.simps digit_char_def)

lemma show_600: "show_int 600 = ''600''"
  by (simp add: show_int_def show_nat.simps digit_char_def)

lemma length_draw_circle [simp]: "length (draw_circle w c r t m) = length m"
  by (simp add: draw_circle_def)

lemma height_draw_circle [simp]: "height (draw_circle w c r t m) = height m"
  by (simp add: height_def)

lemma width_draw_circle [simp]: "width (draw_circle w c r t m) = width m"
  by (cases m) (simp_all add: width_def draw_circle_def)

lemma all_F32 [simp]: "list_all (list_all is_F32) (map (map F32) m)"
  by (simp add: list_all_iff is_F32_def)

lemma usable_run:
  assumes "usable w"
  shows "\<exists>s. main w = Normal s \<and>
    files s = [(export_name w, savetxt_text (depth_array w))] \<and>
    last (stdout s) = sample_text (depth_map (frame w) ! 600 ! 1000) \<and>
    calls s = usable_calls w \<and>
    image_data s = 0 \<and> depth_data s = 1 \<and>
    heap s = (heap (grabbed w))(0 := draw_circle w (1000, 600) 5 1 (left_image (frame w))) \<and>
    camera s = Closed \<and> init_params s = script_params"
proof -
  have ok: "open_result w = SUCCESS" "grab_result w = SUCCESS"
    using assms by (simp_all add: usable_def)
  have c: "calls (grabbed w) = [Camera_open script_params SUCCESS, Get_camera_information, Grab SUCCESS,
      Retrieve_image 0 VIEW_LEFT, Retrieve_measure 1 MEASURE_DEPTH,
      Retrieve_image 3 VIEW_DEPTH, Retrieve_measure 2 MEASURE_XYZRGBA, Get_timestamp]"
    by (simp add: grabbed_calls ok)
  show ?thesis
    using assms unfolding main_processing [OF ok(1)]
    by (simp add: usable_def processing_def get_data_def print_infos_def print_shape_def
      print_element_type_def assign_xy_def print_sample_def circle_def imshow_def waitKey_def
      destroyAllWindows_def make_filename_def savetxt_def close_def log_call_def print_def Let_def
      get_value_def in_bounds_def hd_map show_1000 show_600 sample_text_def export_name_def
      depth_array_def usable_calls_def c repr_ERROR_CODE_def repr_cell_def)
qed

lemma split_on_nonempty [simp]: "split_on c s \<noteq> []"
  by (induction s) (auto split: list.splits)

lemma split_on_clean: "c \<notin> set s \<Longrightarrow> split_on c s = [s]"
  by (induction s) auto

lemma split_on_append:
  "c \<notin> set x \<Longrightarrow> split_on c (x @ c # rest) = x # split_on c rest"
  by (induction x) auto

lemma split_on_join:
  assumes "\<forall>x\<in>set xs. c \<notin> set x" and "xs \<noteq> []"
  shows "split_on c (join [c] xs) = xs"
  using assms
proof (induction "[c]" xs rule: join.induct)
  case 1
  then show ?case by simp
next
  case (2 x)
  then show ?case by (simp add: split_on_clean)
next
  case (3 x y ys)
  then show ?case by (simp add: split_on_append)
qed

lemma split_on_lines:
  assumes "\<forall>x\<in>set xs. c \<notin> set x"
  shows "split_on c (concat (map (\<lambda>x. x @ [c]) xs)) = xs @ [[]]"
  using assms by (induction xs) (simp_all add: split_on_append)

lemma digit_char_digit: "d < 10 \<Longrightarrow> digit_char d \<in> set ''0123456789''"
proof -
  assume "d < 10"
  then have "d \<in> {0, 1, 2, 3, 4, 5, 6, 7, 8, 9}" by auto
  then show ?thesis by (auto simp add: digit_char_def)
qed

lemma show_nat_digits: "set (show_nat n) \<subseteq> set ''0123456789''"
proof (induction n rule: show_nat.induct)
  case (1 n)
  show ?case
  proof (cases "n < 10")
    case True
    then show ?thesis using digit_char_digit [of n] by (subst show_nat.simps) simp
  next
    case False
    have "n mod 10 < 10" by simp
    then have "digit_char (n mod 10) \<in> set ''0123456789''" by (rule digit_char_digit)
    then show ?thesis using 1 False by (subst show_nat.simps) simp
  qed
qed

lemma show_nat_length: "n < 10 ^ k \<Longrightarrow> 0 < k \<Longrightarrow> length (show_nat n) \<le> k"
proof (induction n arbitrary: k rule: show_nat.induct)
  case (1 n)
  show ?case
  proof (cases "n < 10")
    case True
    then show ?thesis using 1 by (subst show_nat.simps) simp
  next
    case False
    then obtain j where j: "k = Suc j" using 1 by (cases k) auto
    have "0 < j" using False 1 j by (cases j) auto
    moreover have "n div 10 < 10 ^ j" using 1 j by (simp add: less_mult_imp_div_less mult.commute)
    ultimately have "length (show_nat (n div 10)) \<le> j" using 1 False by blast
    then show ?thesis using False j by (subst show_nat.simps) simp
  qed
qed

lemma join_set: "set (join sep xs) \<subseteq> set sep \<union> (\<Union>x\<in>set xs. set x)"
  by (induction sep xs rule: join.induct) auto

lemma zero_pad_set: "set (zero_pad p s) \<subseteq> insert CHR ''0'' (set s)"
  by (auto simp add: zero_pad_def)

lemma show_nat_is_digit: "x \<in> set (show_nat k) \<Longrightarrow> is_digit x"
  using show_nat_digits [of k] unfolding is_digit_def by blast

lemma zero_pad_is_digit: "x \<in> set (zero_pad p (show_nat k)) \<Longrightarrow> is_digit x"
proof -
  assume "x \<in> set (zero_pad p (show_nat k))"
  then have "x = CHR ''0'' \<or> x \<in> set (show_nat k)" using zero_pad_set [of p "show_nat k"] by blast
  moreover have "is_digit CHR ''0''" by (simp add: is_digit_def)
  ultimately show ?thesis using show_nat_is_digit by blast
qed

lemma format_f_chars:
  assumes "c \<in> set (format_f p v)"
  shows "is_digit c \<or> c = CHR ''.'' \<or> c = CHR ''-'' \<or> c = CHR ''n'' \<or> c = CHR ''a'' \<or>
         c = CHR ''i'' \<or> c = CHR ''f''"
proof (cases v)
  case (Finite m e)
  define n where "n = round_div (nat \<bar>m\<bar> * 2 ^ nat e * 10 ^ p) (2 ^ nat (- e))"
  have "c = CHR ''-'' \<or> c \<in> set (show_nat (n div 10 ^ p)) \<or> c = CHR ''.'' \<or>
        c \<in> set (zero_pad p (show_nat (n mod 10 ^ p)))"
    using assms by (auto simp add: Finite format_f_def Let_def n_def split: if_splits)
  then show ?thesis using show_nat_is_digit zero_pad_is_digit by blast
next
  case NegZero
  have "is_digit CHR ''0''" by (simp add: is_digit_def)
  moreover have "c = CHR ''-'' \<or> c = CHR ''0'' \<or> c = CHR ''.''"
    using assms by (auto simp add: NegZero format_f_def split: if_splits)
  ultimately show ?thesis by blast
next
  case PosInf
  then show ?thesis using assms by (simp add: format_f_def) blast
next
  case NegInf
  then show ?thesis using assms by (simp add: format_f_def) blast
next
  case NaN
  then show ?thesis using assms by (simp add: format_f_def) blast
qed

lemma fmt_cell_clean: "CHR '' '' \<notin> set (fmt_cell c)" "CHR 0x0A \<notin> set (fmt_cell c)"
proof -
  have a: "\<not> is_digit CHR '' ''" "\<not> is_digit (CHR 0x0A)" by (simp_all add: is_digit_def)
  have "x \<in> set (fmt_cell c) \<Longrightarrow> x \<noteq> CHR '' '' \<and> x \<noteq> CHR 0x0A" for x
  proof (cases c)
    case (F32 v)
    assume "x \<in> set (fmt_cell c)"
    then have "x \<in> set (format_f 8 v)" by (simp add: fmt_cell_def F32)
    from format_f_chars [OF this] show ?thesis using a by auto
  qed (simp_all add: fmt_cell_def)
  then show "CHR '' '' \<notin> set (fmt_cell c)" "CHR 0x0A \<notin> set (fmt_cell c)" by blast+
qed

lemma fields_of_row:
  "row \<noteq> [] \<Longrightarrow> fields_of (join '' '' (map fmt_cell row)) = map fmt_cell row"
  unfolding fields_of_def by (rule split_on_join) (simp_all add: fmt_cell_clean)

lemma row_clean: "CHR 0x0A \<notin> set (join '' '' (map fmt_cell row))"
  using join_set [of "'' ''" "map fmt_cell row"] fmt_cell_clean(2) by auto

lemma lines_of_savetxt:
  "lines_of (savetxt_text m) = map (\<lambda>row. join '' '' (map fmt_cell row)) m"
proof -
  define rows where "rows = map (\<lambda>row. join '' '' (map fmt_cell row)) m"
  have t: "savetxt_text m = concat (map (\<lambda>x. x @ [CHR 0x0A]) rows)"
    by (simp add: rows_def savetxt_text_def savetxt_row_def [abs_def] comp_def)
  have "\<forall>x\<in>set rows. CHR 0x0A \<notin> set x"
    using row_clean by (auto simp add: rows_def)
  then have "split_on (CHR 0x0A) (savetxt_text m) = rows @ [[]]"
    unfolding t by (rule split_on_lines)
  then have "lines_of (savetxt_text m) = rows"
    by (simp add: lines_of_def)
  then show ?thesis by (simp add: rows_def)
qed

lemma exported_field:
  assumes "i < length m" and "j < length (m ! i)"
  shows "fields_of (lines_of (savetxt_text m) ! i) ! j = fmt_cell (m ! i ! j)"
proof -
  have "m ! i \<noteq> []" using assms by auto
  then show ?thesis using assms by (simp add: lines_of_savetxt fields_of_row)
qed

lemma exported_shape:
  assumes "has_shape m h wd" and "0 < wd"
  shows "length (lines_of (savetxt_text m)) = h"
    and "i < h \<Longrightarrow> length (fields_of (lines_of (savetxt_text m) ! i)) = wd"
proof -
  show "length (lines_of (savetxt_text m)) = h"
    using assms by (simp add: lines_of_savetxt has_shape_def)
  assume "i < h"
  then have "i < length m" "length (m ! i) = wd"
    using assms by (simp_all add: has_shape_def list_all_length)
  moreover from this have "m ! i \<noteq> []" using assms(2) by auto
  ultimately show "length (fields_of (lines_of (savetxt_text m) ! i)) = wd"
    by (simp add: lines_of_savetxt fields_of_row)
qed

lemma takeWhile_all: "\<forall>x\<in>set xs. P x \<Longrightarrow> \<not> P y \<Longrightarrow> takeWhile P (xs @ y # ys) = xs"
  by (induction xs) auto

lemma dropWhile_all: "\<forall>x\<in>set xs. P x \<Longrightarrow> \<not> P y \<Longrightarrow> dropWhile P (xs @ y # ys) = y # ys"
  by (induction xs) auto

lemma show_nat_nonempty [simp]: "show_nat n \<noteq> []"
  by (subst show_nat.simps) simp

lemma format_f_fixed: "0 < p \<Longrightarrow> fixed_decimal p (format_f p (Finite m e))"
proof -
  assume p: "0 < p"
  define n where "n = round_div (nat \<bar>m\<bar> * 2 ^ nat e * 10 ^ p) (2 ^ nat (- e))"
  define ip where "ip = show_nat (n div 10 ^ p)"
  define fp where "fp = zero_pad p (show_nat (n mod 10 ^ p))"
  have f: "format_f p (Finite m e) = (if m < 0 then ''-'' else []) @ ip @ ''.'' @ fp"
    by (simp add: format_f_def Let_def n_def ip_def fp_def)
  have dig_ip: "\<forall>x\<in>set ip. is_digit x"
    using show_nat_is_digit by (auto simp add: ip_def)
  have "length (show_nat (n mod 10 ^ p)) \<le> p"
    using p by (intro show_nat_length) simp_all
  then have len: "length fp = p" by (simp add: fp_def zero_pad_def)
  have dig_fp: "list_all is_digit fp"
    using zero_pad_is_digit by (auto simp add: fp_def list_all_iff)
  have nd: "\<not> is_digit CHR ''.''" by (simp add: is_digit_def)
  have ne: "ip \<noteq> []" by (simp add: ip_def)
  have hd_ip: "take 1 (ip @ ''.'' @ fp) \<noteq> ''-''"
  proof -
    obtain c cs where "ip = c # cs" using ne by (cases ip) auto
    moreover have "is_digit c" using dig_ip calculation by simp
    ultimately show ?thesis by (auto simp add: is_digit_def)
  qed
  have core: "takeWhile is_digit (ip @ ''.'' @ fp) = ip" "dropWhile is_digit (ip @ ''.'' @ fp) = ''.'' @ fp"
    using takeWhile_all [OF dig_ip nd, of fp] dropWhile_all [OF dig_ip nd, of fp] by simp_all
  show ?thesis
  proof (cases "m < 0")
    case True
    then show ?thesis using core ne len dig_fp by (simp add: f fixed_decimal_def)
  next
    case False
    then show ?thesis using core ne len dig_fp hd_ip by (simp add: f fixed_decimal_def)
  qed
qed

lemma format_f_fixed_zero: "fixed_decimal p (format_f p NegZero)"
  by (simp add: fixed_decimal_def format_f_def is_digit_def list_all_iff)

lemma format_f_fixed_finite: "0 < p \<Longrightarrow> is_finite v \<Longrightarrow> fixed_decimal p (format_f p v)"
  by (cases v) (simp_all add: is_finite_def format_f_fixed format_f_fixed_zero)

lemma nan_not_fixed: "\<not> fixed_decimal 8 (format_f 8 NaN)"
  by (simp add: fixed_decimal_def format_f_def is_digit_def)

lemma inf_not_fixed: "\<not> fixed_decimal 8 (format_f 8 PosInf)" "\<not> fixed_decimal 8 (format_f 8 NegInf)"
  by (simp_all add: fixed_decimal_def format_f_def is_digit_def)

lemma replicate_numeral: "replicate (numeral k) x = x # replicate (pred_numeral k) x"
  by (simp add: numeral_eq_Suc)

lemma width_alt: "width m = (if m = [] then 0 else length (hd m))"
  by (cases m) (simp_all add: width_def)

lemma has_shape_replicate: "has_shape (replicate h (replicate wd x)) h wd"
  by (simp add: has_shape_def list_all_iff)

lemma has_shape_facts:
  assumes "has_shape m h wd" and "i < h"
  shows "length m = h" and "m \<noteq> []" and "length (hd m) = wd" and "length (m ! i) = wd"
proof -
  show a: "length m = h" using assms by (simp add: has_shape_def)
  then show b: "m \<noteq> []" using assms(2) by auto
  have all: "\<forall>r\<in>set m. length r = wd" using assms(1) by (simp add: has_shape_def list_all_iff)
  have "hd m \<in> set m" using b by simp
  then show "length (hd m) = wd" using all by blast
  have "m ! i \<in> set m" using a assms(2) by simp
  then show "length (m ! i) = wd" using all by blast
qed

lemma tabulate_shape: "has_shape (tabulate h wd f) h wd"
  by (simp add: tabulate_def has_shape_def list_all_iff)

lemma tabulate_nth: "i < h \<Longrightarrow> j < wd \<Longrightarrow> tabulate h wd f ! i ! j = f i j"
  by (simp add: tabulate_def)

lemma tabulate_const: "tabulate h wd (\<lambda>i j. c) = replicate h (replicate wd c)"
  by (simp add: tabulate_def map_replicate_const)

lemma snapshot_shape:
  assumes "camera_resolution p = Some r" and "resolution_size r = (wd, h)"
  shows "has_shape (depth_map (snapshot w p)) h wd"
  using assms by (simp add: snapshot_def tabulate_shape)

lemma frame_shapes:
  "has_shape (left_image (frame w)) 1080 1920"
  "has_shape (depth_map (frame w)) 1080 1920"
  "has_shape (depth_image (frame w)) 1080 1920"
  by (simp_all add: frame_def snapshot_def script_params_def resolution_size_def tabulate_shape)

lemma frame_depth: "i < 1080 \<Longrightarrow> j < 1920 \<Longrightarrow> depth_map (frame w) ! i ! j = depth_at w i j"
  by (simp add: frame_def snapshot_def script_params_def resolution_size_def tabulate_nth)

lemma frame_time: "image_ns (frame w) = capture_ns w"
  by (simp add: frame_def snapshot_def script_params_def resolution_size_def)

lemma usable_iff:
  "usable w = (open_result w = SUCCESS \<and> grab_result w = SUCCESS \<and> 2 \<le> key_presses w)"
proof -
  have i: "(600::nat) < 1080" by simp
  note l = has_shape_facts [OF frame_shapes(1) [of w] i]
    and d = has_shape_facts [OF frame_shapes(2) [of w] i]
    and v = has_shape_facts [OF frame_shapes(3) [of w] i]
  have "hd (depth_map (frame w)) \<noteq> []" using d(3) by auto
  then show ?thesis
    using l d v by (simp add: usable_def height_def width_alt)
qed

lemma usable_hd1080: "usable world_hd1080"
  by (simp add: usable_iff world_hd1080_def)

lemma hd1080_sample: "depth_map (frame world_hd1080) ! 600 ! 1000 = Finite 11629993 (- 14)"
  by (simp add: frame_depth world_hd1080_def)

lemma hd1080_name: "export_name world_hd1080 = ''1709651329565.txt''"
  apply (simp add: export_name_def frame_time world_hd1080_def get_milliseconds_def)
  apply (simp add: show_nat.simps digit_char_def)
  done

lemma format_sample: "format_f 8 (Finite 11629993 (- 14)) = ''709.83843994''"
  apply (simp add: format_f_def round_div_def Let_def)
  apply (simp add: show_nat.simps digit_char_def zero_pad_def replicate_numeral)
  done

lemma canonical_sample: "canonical 11629993 (- 14) = (6243804948463616, - 43)"
  by (simp add: canonical_def num_digits.simps Let_def)

lemma floor_log10_sample: "floor_log10 (6243804948463616, - 43) = 2"
  apply (simp add: floor_log10_def Let_def)
  apply (simp add: num_digits.simps)
  done

lemma shortest_sample: "shortest_digits (6243804948463616, - 43) = (7098384399414062, - 13)"
  apply (simp add: shortest_digits_def)
  apply (simp add: candidates_def floor_log10_sample round_div_def Let_def)
  apply (simp add: reads_back_def dec_minus_bin_def Let_def)
  done

lemma repr_sample: "repr_float (Finite 11629993 (- 14)) = ''709.8384399414062''"
  apply (simp add: repr_float_def canonical_sample shortest_sample Let_def)
  apply (simp add: show_nat.simps digit_char_def strip_zeros_def repr_digits_def)
  done

lemma value_sample: "value_of 11629993 (- 14) = 709.83843994140625"
  by (simp add: value_of_def)

lemma usable_export:
  assumes "usable w"
  shows "\<exists>s doc. main w = Normal s \<and> files s = [(export_name w, doc)] \<and>
    last (stdout s) = sample_text (depth_map (frame w) ! 600 ! 1000) \<and>
    (\<forall>i j. i < length (depth_map (frame w)) \<and> j < length (depth_map (frame w) ! i) \<longrightarrow>
       fields_of (lines_of doc ! i) ! j = format_f 8 (depth_map (frame w) ! i ! j))"
proof -
  obtain s where s: "main w = Normal s" "files s = [(export_name w, savetxt_text (depth_array w))]"
    "last (stdout s) = sample_text (depth_map (frame w) ! 600 ! 1000)"
    using usable_run [OF assms] by blast
  have "fields_of (lines_of (savetxt_text (depth_array w)) ! i) ! j = format_f 8 (depth_map (frame w) ! i ! j)"
    if "i < length (depth_map (frame w))" "j < length (depth_map (frame w) ! i)" for i j
    using that exported_field [of i "depth_array w" j] by (simp add: depth_array_def fmt_cell_def)
  then show ?thesis using s by blast
qed

text \<open>
  C2, as the code has it. With the depth \<open>709.83843994140625\<close> (the float that reads
  \<^verbatim>\<open>709.8384399414062\<close>) at pixel (1000, 600) of a frame the run can process, the
  line printed for the sample carries the value in full, as \<^verbatim>\<open>repr\<close> writes it,
  and the entry of row 600, column 1000 of the exported file is the value rounded to
  8 decimals, \<^verbatim>\<open>709.83843994\<close>.
\<close>

theorem sample_print_and_export:
  assumes "usable w" and "depth_map (frame w) ! 600 ! 1000 = Finite 11629993 (- 14)"
  shows "\<exists>s doc. main w = Normal s \<and>
    last (stdout s) = ''The depth of the 1000 600 is (SUCCESS, 709.8384399414062)'' @ [CHR 0x0A] \<and>
    files s = [(export_name w, doc)] \<and>
    fields_of (lines_of doc ! 600) ! 1000 = ''709.83843994''"
proof -
  obtain s doc where s: "main w = Normal s" "files s = [(export_name w, doc)]"
    "last (stdout s) = sample_text (depth_map (frame w) ! 600 ! 1000)"
    and f: "\<forall>i j. i < length (depth_map (frame w)) \<and> j < length (depth_map (frame w) ! i) \<longrightarrow>
       fields_of (lines_of doc ! i) ! j = format_f 8 (depth_map (frame w) ! i ! j)"
    using usable_export [OF assms(1)] by blast
  have "600 < length (depth_map (frame w))" "1000 < length (depth_map (frame w) ! 600)"
    using assms(1) by (simp_all add: usable_def)
  then have "fields_of (lines_of doc ! 600) ! 1000 = ''709.83843994''"
    using f assms(2) by (simp add: format_sample)
  moreover have "last (stdout s) = ''The depth of the 1000 600 is (SUCCESS, 709.8384399414062)'' @ [CHR 0x0A]"
    using s(3) by (simp add: assms(2) sample_text_def repr_sample)
  ultimately show ?thesis using s by blast
qed

theorem sample_print_and_export_witness:
  "\<exists>s doc. main world_hd1080 = Normal s \<and>
    last (stdout s) = ''The depth of the 1000 600 is (SUCCESS, 709.8384399414062)'' @ [CHR 0x0A] \<and>
    files s = [(''1709651329565.txt'', doc)] \<and>
    fields_of (lines_of doc ! 600) ! 1000 = ''709.83843994''"
  using sample_print_and_export [OF usable_hd1080 hd1080_sample] by (simp add: hd1080_name)

text \<open>
  C2 as stated fails for the printed text: the line printed for the sample is not the
  one with the value rounded to 8 decimals.
\<close>

theorem printed_sample_not_rounded:
  "\<exists>s. main world_hd1080 = Normal s \<and>
     depth_map (frame world_hd1080) ! 600 ! 1000 = Finite 11629993 (- 14) \<and>
     value_of 11629993 (- 14) = 709.83843994140625 \<and>
     format_f 8 (Finite 11629993 (- 14)) = ''709.83843994'' \<and>
     last (stdout s) = ''The depth of the 1000 600 is (SUCCESS, 709.8384399414062)'' @ [CHR 0x0A] \<and>
     last (stdout s) \<noteq> ''The depth of the 1000 600 is (SUCCESS, 709.83843994)'' @ [CHR 0x0A]"
proof -
  obtain s where s: "main world_hd1080 = Normal s"
    "last (stdout s) = sample_text (depth_map (frame world_hd1080) ! 600 ! 1000)"
    using usable_run [OF usable_hd1080] by blast
  have p: "last (stdout s) = ''The depth of the 1000 600 is (SUCCESS, 709.8384399414062)'' @ [CHR 0x0A]"
    using s(2) by (simp add: hd1080_sample sample_text_def repr_sample)
  then have "last (stdout s) \<noteq> ''The depth of the 1000 600 is (SUCCESS, 709.83843994)'' @ [CHR 0x0A]"
    by simp
  then show ?thesis using s(1) p hd1080_sample value_sample format_sample by blast
qed

lemma has_shape_map: "has_shape m h wd \<Longrightarrow> has_shape (map (map f) m) h wd"
  by (simp add: has_shape_def list_all_iff)

lemma usable_nan: "usable world_nan"
  by (simp add: usable_iff world_nan_def world_hd1080_def)

lemma nan_name: "export_name world_nan = ''1709651329565.txt''"
  using hd1080_name by (simp add: export_name_def frame_time world_nan_def world_hd1080_def)

text \<open>
  C4, as the code has it. The script opens the session with the resolution HD1080, which
  is 1920 by 1080. When the camera opens, the grab succeeds and the user closes both
  windows, the run writes one file, named by the capture time in milliseconds and
  \<^verbatim>\<open>.txt\<close>; it has 1080 lines of 1920 fields separated by single spaces, and field
  \<open>j\<close> of line \<open>i\<close> is the depth of row \<open>i\<close>, column \<open>j\<close> under \<^verbatim>\<open>"%.8f"\<close>: a decimal
  with exactly 8 digits after the point for every depth that is a number, and
  \<^verbatim>\<open>nan\<close>, \<^verbatim>\<open>inf\<close> or \<^verbatim>\<open>-inf\<close> for one that is not.
\<close>

theorem export_layout:
  assumes "open_result w = SUCCESS" and "grab_result w = SUCCESS" and "2 \<le> key_presses w"
  shows "\<exists>s doc. main w = Normal s \<and>
    hd (calls s) = Camera_open script_params SUCCESS \<and>
    camera_resolution script_params = Some HD1080 \<and> resolution_size HD1080 = (1920, 1080) \<and>
    files s = [(show_nat (get_milliseconds (image_ns (frame w))) @ ''.txt'', doc)] \<and>
    length (lines_of doc) = 1080 \<and>
    (\<forall>i<1080. length (fields_of (lines_of doc ! i)) = 1920 \<and>
       (\<forall>j<1920. fields_of (lines_of doc ! i) ! j = format_f 8 (depth_map (frame w) ! i ! j) \<and>
          (is_finite (depth_map (frame w) ! i ! j) \<longrightarrow>
             fixed_decimal 8 (fields_of (lines_of doc ! i) ! j)) \<and>
          (depth_map (frame w) ! i ! j = NaN \<longrightarrow> fields_of (lines_of doc ! i) ! j = ''nan'') \<and>
          (depth_map (frame w) ! i ! j = PosInf \<longrightarrow> fields_of (lines_of doc ! i) ! j = ''inf'') \<and>
          (depth_map (frame w) ! i ! j = NegInf \<longrightarrow> fields_of (lines_of doc ! i) ! j = ''-inf'')))"
proof -
  have u: "usable w" using assms by (simp add: usable_iff)
  have sh: "has_shape (depth_map (frame w)) 1080 1920" by (rule frame_shapes)
  then have sh': "has_shape (depth_array w) 1080 1920"
    unfolding depth_array_def by (rule has_shape_map)
  define doc where "doc = savetxt_text (depth_array w)"
  obtain s where s: "main w = Normal s" "files s = [(export_name w, doc)]"
    "calls s = usable_calls w"
    using usable_run [OF u] unfolding doc_def by blast
  have c: "hd (calls s) = Camera_open script_params SUCCESS"
    using s(3) by (simp add: usable_calls_def)
  have p: "camera_resolution script_params = Some HD1080" "resolution_size HD1080 = (1920, 1080)"
    by (simp_all add: script_params_def resolution_size_def)
  have l: "length (lines_of doc) = 1080"
    unfolding doc_def using exported_shape(1) [OF sh'] by simp
  have f: "length (fields_of (lines_of doc ! i)) = 1920 \<and>
       (\<forall>j<1920. fields_of (lines_of doc ! i) ! j = format_f 8 (depth_map (frame w) ! i ! j) \<and>
          (is_finite (depth_map (frame w) ! i ! j) \<longrightarrow>
             fixed_decimal 8 (fields_of (lines_of doc ! i) ! j)) \<and>
          (depth_map (frame w) ! i ! j = NaN \<longrightarrow> fields_of (lines_of doc ! i) ! j = ''nan'') \<and>
          (depth_map (frame w) ! i ! j = PosInf \<longrightarrow> fields_of (lines_of doc ! i) ! j = ''inf'') \<and>
          (depth_map (frame w) ! i ! j = NegInf \<longrightarrow> fields_of (lines_of doc ! i) ! j = ''-inf''))"
    if i: "i < 1080" for i
  proof -
    have n: "length (fields_of (lines_of doc ! i)) = 1920"
      unfolding doc_def using exported_shape(2) [OF sh' _ i] by simp
    have li: "i < length (depth_map (frame w))" "length (depth_map (frame w) ! i) = 1920"
      using has_shape_facts [OF sh i] i by simp_all
    have "fields_of (lines_of doc ! i) ! j = format_f 8 (depth_map (frame w) ! i ! j) \<and>
          (is_finite (depth_map (frame w) ! i ! j) \<longrightarrow>
             fixed_decimal 8 (fields_of (lines_of doc ! i) ! j)) \<and>
          (depth_map (frame w) ! i ! j = NaN \<longrightarrow> fields_of (lines_of doc ! i) ! j = ''nan'') \<and>
          (depth_map (frame w) ! i ! j = PosInf \<longrightarrow> fields_of (lines_of doc ! i) ! j = ''inf'') \<and>
          (depth_map (frame w) ! i ! j = NegInf \<longrightarrow> fields_of (lines_of doc ! i) ! j = ''-inf'')"
      if j: "j < 1920" for j
    proof -
      have e: "fields_of (lines_of doc ! i) ! j = format_f 8 (depth_map (frame w) ! i ! j)"
        unfolding doc_def using exported_field [of i "depth_array w" j] li j
        by (simp add: depth_array_def fmt_cell_def)
      have "fixed_decimal 8 (format_f 8 v)" if "is_finite v" for v
        using that format_f_fixed_finite [of 8 v] by simp
      then show ?thesis using e by (simp add: format_f_def)
    qed
    then show ?thesis using n by blast
  qed
  have f': "\<forall>i<1080. length (fields_of (lines_of doc ! i)) = 1920 \<and>
       (\<forall>j<1920. fields_of (lines_of doc ! i) ! j = format_f 8 (depth_map (frame w) ! i ! j) \<and>
          (is_finite (depth_map (frame w) ! i ! j) \<longrightarrow>
             fixed_decimal 8 (fields_of (lines_of doc ! i) ! j)) \<and>
          (depth_map (frame w) ! i ! j = NaN \<longrightarrow> fields_of (lines_of doc ! i) ! j = ''nan'') \<and>
          (depth_map (frame w) ! i ! j = PosInf \<longrightarrow> fields_of (lines_of doc ! i) ! j = ''inf'') \<and>
          (depth_map (frame w) ! i ! j = NegInf \<longrightarrow> fields_of (lines_of doc ! i) ! j = ''-inf''))"
    using f by blast
  have n: "files s = [(show_nat (get_milliseconds (image_ns (frame w))) @ ''.txt'', doc)]"
    using s(2) by (simp add: export_name_def)
  show ?thesis using s(1) c p n l f' by blast
qed

theorem export_layout_witness:
  "\<exists>s doc. main world_hd1080 = Normal s \<and>
    hd (calls s) = Camera_open script_params SUCCESS \<and>
    files s = [(''1709651329565.txt'', doc)] \<and>
    length (lines_of doc) = 1080 \<and>
    length (fields_of (lines_of doc ! 600)) = 1920 \<and>
    fields_of (lines_of doc ! 600) ! 1000 = ''709.83843994'' \<and>
    fixed_decimal 8 (fields_of (lines_of doc ! 600) ! 1000)"
proof -
  have a: "open_result world_hd1080 = SUCCESS" "grab_result world_hd1080 = SUCCESS"
    "2 \<le> key_presses world_hd1080"
    by (simp_all add: world_hd1080_def)
  obtain s doc where s: "main world_hd1080 = Normal s"
    "hd (calls s) = Camera_open script_params SUCCESS"
    "files s = [(show_nat (get_milliseconds (image_ns (frame world_hd1080))) @ ''.txt'', doc)]"
    "length (lines_of doc) = 1080"
    and f: "\<forall>i<1080. length (fields_of (lines_of doc ! i)) = 1920 \<and>
       (\<forall>j<1920. fields_of (lines_of doc ! i) ! j = format_f 8 (depth_map (frame world_hd1080) ! i ! j) \<and>
          (is_finite (depth_map (frame world_hd1080) ! i ! j) \<longrightarrow>
             fixed_decimal 8 (fields_of (lines_of doc ! i) ! j)) \<and>
          (depth_map (frame world_hd1080) ! i ! j = NaN \<longrightarrow> fields_of (lines_of doc ! i) ! j = ''nan'') \<and>
          (depth_map (frame world_hd1080) ! i ! j = PosInf \<longrightarrow> fields_of (lines_of doc ! i) ! j = ''inf'') \<and>
          (depth_map (frame world_hd1080) ! i ! j = NegInf \<longrightarrow> fields_of (lines_of doc ! i) ! j = ''-inf''))"
    using export_layout [OF a] by blast
  have i: "(600::nat) < 1080" "(1000::nat) < 1920" by simp_all
  have c: "length (fields_of (lines_of doc ! 600)) = 1920 \<and>
      fields_of (lines_of doc ! 600) ! 1000 = format_f 8 (depth_map (frame world_hd1080) ! 600 ! 1000) \<and>
      (is_finite (depth_map (frame world_hd1080) ! 600 ! 1000) \<longrightarrow>
         fixed_decimal 8 (fields_of (lines_of doc ! 600) ! 1000))"
    using f i by blast
  have nn: "is_finite (depth_map (frame world_hd1080) ! 600 ! 1000)"
    by (simp add: hd1080_sample is_finite_def)
  have "fixed_decimal 8 (fields_of (lines_of doc ! 600) ! 1000)" using c nn by blast
  moreover have "fields_of (lines_of doc ! 600) ! 1000 = ''709.83843994''"
    using c by (simp add: hd1080_sample format_sample)
  moreover have "length (fields_of (lines_of doc ! 600)) = 1920" using c by blast
  moreover have "files s = [(''1709651329565.txt'', doc)]"
    using s(3) hd1080_name by (simp add: export_name_def)
  ultimately show ?thesis using s by blast
qed

text \<open>
  C4 as stated fails where the depth matrix holds a value that is not a number: the
  field written for a not-a-number is \<^verbatim>\<open>nan\<close> and the one for an infinity is
  \<^verbatim>\<open>inf\<close>, neither of which has decimal digits.
\<close>

theorem nan_entry_has_no_decimals:
  "\<exists>s doc. main world_nan = Normal s \<and>
    files s = [(''1709651329565.txt'', doc)] \<and>
    depth_map (frame world_nan) ! 0 ! 0 = NaN \<and>
    fields_of (lines_of doc ! 0) ! 0 = ''nan'' \<and>
    \<not> fixed_decimal 8 (fields_of (lines_of doc ! 0) ! 0) \<and>
    depth_map (frame world_nan) ! 0 ! 1 = PosInf \<and>
    fields_of (lines_of doc ! 0) ! 1 = ''inf'' \<and>
    \<not> fixed_decimal 8 (fields_of (lines_of doc ! 0) ! 1)"
proof -
  obtain s doc where s: "main world_nan = Normal s" "files s = [(export_name world_nan, doc)]"
    and f: "\<forall>i j. i < length (depth_map (frame world_nan)) \<and> j < length (depth_map (frame world_nan) ! i) \<longrightarrow>
       fields_of (lines_of doc ! i) ! j = format_f 8 (depth_map (frame world_nan) ! i ! j)"
    using usable_export [OF usable_nan] by blast
  have i: "(0::nat) < 1080" by simp
  have d: "depth_map (frame world_nan) ! 0 ! 0 = NaN" "depth_map (frame world_nan) ! 0 ! 1 = PosInf"
    by (simp_all add: frame_depth world_nan_def)
  have len: "0 < length (depth_map (frame world_nan))" "0 < length (depth_map (frame world_nan) ! 0)"
    "1 < length (depth_map (frame world_nan) ! 0)"
    using has_shape_facts [OF frame_shapes(2) [of world_nan] i] by simp_all
  have e: "fields_of (lines_of doc ! 0) ! 0 = ''nan''" "fields_of (lines_of doc ! 0) ! 1 = ''inf''"
    using f d len by (simp_all add: format_f_def)
  then have "\<not> fixed_decimal 8 (fields_of (lines_of doc ! 0) ! 0)"
    "\<not> fixed_decimal 8 (fields_of (lines_of doc ! 0) ! 1)"
    using nan_not_fixed inf_not_fixed(1) by (simp_all add: format_f_def)
  then show ?thesis using s d e by (simp add: nan_name)
qed

text \<open>
  C10. In a run that reaches the export, \<^verbatim>\<open>image_data\<close> and \<^verbatim>\<open>depth_data\<close> are
  different buffers (the first and the second allocated); after annotation and display every buffer but that of
  \<^verbatim>\<open>image_data\<close> holds what it held when the frame had been retrieved, the depth
  buffer holds the depth matrix of the frame, and the exported text is the rendering of
  exactly that matrix.
\<close>

theorem annotation_leaves_depth:
  assumes "usable w"
  shows "\<exists>s. main w = Normal s \<and> image_data s = 0 \<and> depth_data s = 1 \<and>
    (\<forall>a. a \<noteq> image_data s \<longrightarrow> heap s a = heap (grabbed w) a) \<and>
    heap s (image_data s) = draw_circle w (1000, 600) 5 1 (left_image (frame w)) \<and>
    heap s (depth_data s) = map (map F32) (depth_map (frame w)) \<and>
    files s = [(export_name w, savetxt_text (map (map F32) (depth_map (frame w))))]"
proof -
  have g: "grab_result w = SUCCESS" using assms by (simp add: usable_def)
  obtain s where s: "main w = Normal s"
    "files s = [(export_name w, savetxt_text (depth_array w))]"
    "image_data s = 0" "depth_data s = 1"
    "heap s = (heap (grabbed w))(0 := draw_circle w (1000, 600) 5 1 (left_image (frame w)))"
    using usable_run [OF assms] by blast
  have "heap s (depth_data s) = map (map F32) (depth_map (frame w))"
    using s g by simp
  then show ?thesis using s by (simp add: depth_array_def)
qed

theorem annotation_leaves_depth_witness:
  "\<exists>s. main world_hd1080 = Normal s \<and> image_data s \<noteq> depth_data s \<and>
    heap s 3 = heap (grabbed world_hd1080) 3 \<and>
    heap s (depth_data s) = replicate 1080 (replicate 1920 (F32 (Finite 11629993 (- 14)))) \<and>
    files s = [(''1709651329565.txt'',
                savetxt_text (replicate 1080 (replicate 1920 (F32 (Finite 11629993 (- 14))))))]"
proof -
  obtain s where s: "main world_hd1080 = Normal s" "image_data s = 0" "depth_data s = 1"
    "\<forall>a. a \<noteq> image_data s \<longrightarrow> heap s a = heap (grabbed world_hd1080) a"
    "heap s (depth_data s) = map (map F32) (depth_map (frame world_hd1080))"
    "files s = [(export_name world_hd1080,
                 savetxt_text (map (map F32) (depth_map (frame world_hd1080))))]"
    using annotation_leaves_depth [OF usable_hd1080] by blast
  have m: "map (map F32) (depth_map (frame world_hd1080)) =
      replicate 1080 (replicate 1920 (F32 (Finite 11629993 (- 14))))"
    by (simp add: frame_def snapshot_def script_params_def resolution_size_def world_hd1080_def
        tabulate_const)
  have "heap s 3 = heap (grabbed world_hd1080) 3" using s(2,4) by simp
  then show ?thesis using s m by (simp add: hd1080_name)
qed

lemma run_invariant:
  assumes "\<And>c s. c \<in> set cs \<Longrightarrow> P s \<Longrightarrow> P (final (c s))" and "P s"
  shows "P (final (run cs s))"
  using assms
proof (induction cs arbitrary: s)
  case Nil
  then show ?case by simp
next
  case (Cons c cs)
  have step: "P (final (c s))" using Cons.prems by simp
  show ?case
  proof (cases "c s")
    case (Normal s')
    then have "P s'" using step by simp
    then have "P (final (run cs s'))" using Cons.IH Cons.prems(1) by simp
    then show ?thesis using Normal by simp
  qed (use step in simp_all)
qed

lemma grabbed_session:
  "open_result w = SUCCESS \<Longrightarrow>
     camera (grabbed w) = (if grab_result w = SUCCESS then Grabbed else Opened)"
  by (simp add: acquisition_defs)

lemma grabbed_stdout_failure:
  "grab_result w \<noteq> SUCCESS \<Longrightarrow>
     stdout (grabbed w) = [''Hello! This is my serial number: '' @ show_nat (serial_number w) @ [CHR 0x0A]]"
  by (simp add: acquisition_defs)

lemma shape_str_empty: "shape_str [] = ''(0, 0)''"
  by (simp add: shape_str_def height_def width_def show_nat.simps digit_char_def)

lemmas statement_defs = get_data_def print_infos_def print_shape_def
      print_element_type_def assign_xy_def print_sample_def circle_def imshow_def waitKey_def
      destroyAllWindows_def make_filename_def savetxt_def close_def log_call_def print_def Let_def

lemma grab_failure_run:
  assumes "open_result w = SUCCESS" and "grab_result w \<noteq> SUCCESS"
  shows "\<exists>s. main w = Raised IndexError s \<and>
    calls s = [Camera_open script_params SUCCESS, Get_camera_information, Grab (grab_result w),
               Mat_get_data 0, Mat_get_data 1, Mat_get_data 3, Mat_get_data 2, Mat_get_infos 1] \<and>
    length (stdout s) = 3 \<and> last (stdout s) = ''(0, 0)'' @ [CHR 0x0A] \<and>
    files s = [] \<and> timestamp s = None \<and> camera s = Opened"
  using assms unfolding main_processing [OF assms(1)]
  by (simp add: processing_def statement_defs grabbed_calls grabbed_session grabbed_stdout_failure
      shape_str_empty)

text \<open>
  C1, as the code has it. When the camera opened and \<^verbatim>\<open>grab\<close> answers anything but
  \<^verbatim>\<open>SUCCESS\<close>, only the block of lines 56 to 73 is skipped: the run goes on to call
  \<^verbatim>\<open>get_data\<close> on the four matrices that were never filled and to print the metadata
  and the shape, and it ends in an \<^verbatim>\<open>IndexError\<close> at \<^verbatim>\<open>depth_data[0][0]\<close> (line 92),
  with the session still open. No grab is tried again and no file is written.
\<close>

theorem grab_failure_still_processes:
  assumes "open_result w = SUCCESS" and "grab_result w \<noteq> SUCCESS"
  shows "\<exists>s. main w = Raised IndexError s \<and>
    calls s = [Camera_open script_params SUCCESS, Get_camera_information, Grab (grab_result w),
               Mat_get_data 0, Mat_get_data 1, Mat_get_data 3, Mat_get_data 2, Mat_get_infos 1] \<and>
    length (stdout s) = 3 \<and> last (stdout s) = ''(0, 0)'' @ [CHR 0x0A] \<and>
    files s = [] \<and> timestamp s = None \<and> camera s = Opened"
  using assms by (rule grab_failure_run)

theorem grab_failure_still_processes_witness:
  "\<exists>s. main world_grab_fails = Raised IndexError s \<and>
    calls s = [Camera_open script_params SUCCESS, Get_camera_information,
               Grab (OTHER ''END_OF_SVOFILE_REACHED''),
               Mat_get_data 0, Mat_get_data 1, Mat_get_data 3, Mat_get_data 2, Mat_get_infos 1] \<and>
    length (stdout s) = 3 \<and> last (stdout s) = ''(0, 0)'' @ [CHR 0x0A] \<and>
    files s = [] \<and> timestamp s = None \<and> camera s = Opened"
  using grab_failure_still_processes [of world_grab_fails]
  by (simp add: world_grab_fails_def world_hd1080_def)

lemma after_open_keeps_params:
  assumes "c \<in> set (after_open w)"
  shows "init_params (final (c s)) = init_params s \<and> session_params (final (c s)) = session_params s"
  using assms
  by (auto simp add: after_open_def acquisition_def processing_def statement_defs print_serial_def
      new_Mat_def grab_block_def retrieve_image_def retrieve_measure_def get_timestamp_def
      print_resolution_def split: sum.splits option.splits prod.splits)

lemma opened_params:
  "init_params (opened w) = script_params" "session_params (opened w) = script_params"
  "calls (opened w) = [Camera_open script_params (open_result w)]"
  by (simp_all add: opened_def configured_def initial_def log_call_def)

lemma main_first_call: "hd (calls_of (main w)) = Camera_open script_params (open_result w)"
proof (cases "open_result w = SUCCESS")
  case True
  obtain ds where "calls_of (main w) = calls (grabbed w) @ ds"
    using main_calls_prefix [OF True] by blast
  then show ?thesis by (simp add: grabbed_calls)
next
  case False
  then show ?thesis by (simp add: main_unfold calls_of_def opened_params log_call_def)
qed

lemma main_keeps_params:
  "init_params (final (main w)) = script_params \<and> session_params (final (main w)) = script_params"
proof (cases "open_result w = SUCCESS")
  case True
  have "init_params (final (run (after_open w) (opened w))) = script_params \<and>
        session_params (final (run (after_open w) (opened w))) = script_params"
    by (rule run_invariant) (simp_all add: after_open_keeps_params opened_params)
  then show ?thesis using True by (simp add: main_unfold)
next
  case False
  then show ?thesis by (simp add: main_unfold opened_params log_call_def)
qed

text \<open>
  C8. The first call of every run is \<^verbatim>\<open>open\<close>, and the configuration it is handed has
  all four options assigned: resolution HD1080, 30 frames per second, depth mode
  PERFORMANCE, millimetres. No statement after the open changes a field of the
  configuration, neither of the script's object nor of the session's copy, from
  whatever state it is run; at the end of the run both are still what was handed over.
\<close>

theorem configuration_fixed_at_open:
  "hd (calls_of (main w)) = Camera_open script_params (open_result w) \<and>
   camera_resolution script_params = Some HD1080 \<and> camera_fps script_params = Some 30 \<and>
   depth_mode script_params = Some PERFORMANCE \<and> coordinate_units script_params = Some MILLIMETER \<and>
   (\<forall>c\<in>set (after_open w). \<forall>s.
      init_params (final (c s)) = init_params s \<and> session_params (final (c s)) = session_params s) \<and>
   init_params (final (main w)) = script_params \<and> session_params (final (main w)) = script_params"
  using main_first_call [of w] main_keeps_params [of w] after_open_keeps_params [of _ w]
  by (simp add: script_params_def)

theorem configuration_fixed_at_open_witness:
  "hd (calls_of (main world_hd1080)) = Camera_open script_params SUCCESS \<and>
   init_params (final (close (initial world_hd1080))) = init_params (initial world_hd1080) \<and>
   init_params (final (main world_hd1080)) = script_params \<and>
   session_params (final (main world_hd1080)) = script_params"
proof -
  have "close \<in> set (after_open world_hd1080)"
    by (simp add: after_open_def processing_def)
  then show ?thesis
    using configuration_fixed_at_open [of world_hd1080] by (simp add: world_hd1080_def)
qed












end
